theory Spec2Isabelle
  imports Complex_Main
begin

section \<open>Platform functions used by the editor\<close>

text \<open>
  The editor is a React component written in TypeScript. Its numbers are JavaScript
  numbers. The model keeps two kinds apart, as the code does: quantities that the code only
  ever fills with integers (pixel dimensions from \<open>naturalWidth\<close>, \<open>parseInt\<close> and
  \<open>Math.round\<close>, the rotation, brush and text sizes) are \<open>int\<close>; percentages, ratios and
  pointer coordinates are \<open>rat\<close>. The aspect ratio and the two computations of the ratio
  lock are rounded to binary64 as JavaScript rounds them (\<open>toDouble\<close>), since the field
  values they produce depend on how a tie is rounded; the geometry of crop boxes, text
  positions and strokes is computed exactly. A division whose divisor is zero would
  produce \<open>Infinity\<close> or \<open>NaN\<close> in JavaScript; the model does not follow an execution past
  that point and reports \<open>NonFinite\<close> instead. An assignment past the end of an array
  would leave holes in it; the model reports \<open>SparseArray\<close> there. \<open>TypeError\<close> is the
  exception raised by reading a property of \<open>undefined\<close>.
\<close>

datatype error = TypeError | NonFinite | SparseArray

definition Math_round :: "rat \<Rightarrow> int" where
  \<comment> \<open>\<open>Math.round\<close>: the nearest integer, ties towards \<open>+\<infinity>\<close>.\<close>
  "Math_round v = \<lfloor>v + 1 / 2\<rfloor>"

fun ilog2 :: "nat \<Rightarrow> nat" where
  \<comment> \<open>The integer part of the binary logarithm of a positive number.\<close>
  "ilog2 n = (if n < 2 then 0 else Suc (ilog2 (n div 2)))"

declare ilog2.simps [simp del]

definition binade :: "rat \<Rightarrow> int" where
  \<comment> \<open>For positive \<open>v\<close>, the exponent \<open>e\<close> with \<open>2 ^ e \<le> v < 2 ^ (e + 1)\<close>.\<close>
  "binade v =
     (if 1 \<le> v then int (ilog2 (nat \<lfloor>v\<rfloor>))
      else (let k = int (ilog2 (nat \<lfloor>1 / v\<rfloor>))
            in if v * 2 ^ nat k = 1 then - k else - k - 1))"

definition roundHalfEven :: "rat \<Rightarrow> int" where
  \<comment> \<open>The nearest integer, a tie going to the even one.\<close>
  "roundHalfEven v =
     (let f = \<lfloor>v\<rfloor>; d = v - of_int f
      in if d < 1 / 2 then f else if 1 / 2 < d then f + 1 else if even f then f else f + 1)"

definition toDouble :: "rat \<Rightarrow> rat" where
  \<comment> \<open>The binary64 number nearest to a rational, ties to even: 53 significant bits,
      exponents from \<open>-1022\<close> (below that the spacing stays that of the subnormal numbers).
      Overflow to \<open>Infinity\<close>, beyond \<open>2 ^ 1024\<close>, is outside the model.\<close>
  "toDouble v =
     (if v = 0 then 0
      else (let e = max (binade \<bar>v\<bar>) (- 1022); q = 2 powi (e - 52)
            in sgn v * of_int (roundHalfEven (\<bar>v\<bar> / q)) * q))"

definition js_rem :: "int \<Rightarrow> int \<Rightarrow> int" where
  \<comment> \<open>The \<open>%\<close> operator on integers: the result has the sign of the dividend.\<close>
  "js_rem a b = sgn a * (\<bar>a\<bar> mod \<bar>b\<bar>)"

definition isWhiteSpace :: "char \<Rightarrow> bool" where
  \<comment> \<open>The ASCII white space and line terminator characters.\<close>
  "isWhiteSpace c = (c \<in> set [CHR 0x09, CHR 0x0A, CHR 0x0B, CHR 0x0C, CHR 0x0D, CHR 0x20])"

definition trim :: "string \<Rightarrow> string" where
  \<comment> \<open>\<open>String.prototype.trim\<close>.\<close>
  "trim s = rev (dropWhile isWhiteSpace (rev (dropWhile isWhiteSpace s)))"

definition digitValue :: "char \<Rightarrow> nat option" where
  "digitValue c =
     (let n = (of_char c :: nat) in
      if 48 \<le> n \<and> n \<le> 57 then Some (n - 48)
      else if 97 \<le> n \<and> n \<le> 102 then Some (n - 87)
      else if 65 \<le> n \<and> n \<le> 70 then Some (n - 55)
      else None)"

definition isRadixDigit :: "nat \<Rightarrow> char \<Rightarrow> bool" where
  "isRadixDigit R c = (case digitValue c of None \<Rightarrow> False | Some d \<Rightarrow> d < R)"

definition digitsValue :: "nat \<Rightarrow> string \<Rightarrow> nat" where
  "digitsValue R Z = foldl (\<lambda>a c. a * R + (case digitValue c of None \<Rightarrow> 0 | Some d \<Rightarrow> d)) 0 Z"

definition parseInt :: "string \<Rightarrow> int option" where
  \<comment> \<open>\<open>parseInt(s)\<close> with no radix argument; \<open>None\<close> is \<open>NaN\<close>. Leading white space is
      skipped, a sign and a \<open>0x\<close> prefix are read, then the longest run of digits. The
      value is the exact integer (JavaScript rounds one beyond \<open>2 ^ 53\<close> to binary64).\<close>
  "parseInt inputString =
     (let S = dropWhile isWhiteSpace inputString;
          neg = (S \<noteq> [] \<and> hd S = CHR ''-'');
          S1 = (if S \<noteq> [] \<and> (hd S = CHR ''+'' \<or> hd S = CHR ''-'') then tl S else S);
          hex = (take 2 S1 = ''0x'' \<or> take 2 S1 = ''0X'');
          R = (if hex then 16 else 10);
          S2 = (if hex then drop 2 S1 else S1);
          Z = takeWhile (isRadixDigit R) S2
      in if Z = [] then None
         else Some ((if neg then - 1 else 1) * int (digitsValue R Z)))"

definition digitChar :: "nat \<Rightarrow> char" where
  "digitChar d = ''0123456789'' ! d"

fun digits :: "nat \<Rightarrow> string" where
  \<comment> \<open>The decimal digits of a natural number.\<close>
  "digits n =
     (if n < 10 then [digitChar n]
      else digits (n div 10) @ [digitChar (n mod 10)])"

declare digits.simps [simp del]

definition toString :: "int \<Rightarrow> string" where
  \<comment> \<open>\<open>Number.prototype.toString\<close> on an integer.\<close>
  "toString n = (if n < 0 then CHR ''-'' # digits (nat (- n)) else digits (nat n))"

fun str_includes :: "string \<Rightarrow> string \<Rightarrow> bool" where
  \<comment> \<open>\<open>String.prototype.includes\<close>.\<close>
  "str_includes [] sub = (sub = [])"
| "str_includes (c # cs) sub = (take (length sub) (c # cs) = sub \<or> str_includes cs sub)"

definition slice0 :: "'a list \<Rightarrow> int \<Rightarrow> 'a list" where
  \<comment> \<open>\<open>xs.slice(0, e)\<close>: a negative end counts from the end of the array.\<close>
  "slice0 xs e = (if e < 0 then take (nat (int (length xs) + e)) xs else take (nat e) xs)"

definition index :: "'a list \<Rightarrow> int \<Rightarrow> 'a option" where
  \<comment> \<open>\<open>xs[i]\<close>: \<open>None\<close> is \<open>undefined\<close>, the value of an index outside the array.\<close>
  "index xs i = (if 0 \<le> i \<and> i < int (length xs) then Some (xs ! nat i) else None)"


section \<open>Data model\<close>

type_synonym point = "rat \<times> rat"

datatype stroke =
    FreeStroke string int "point list"  \<comment> \<open>mode \<open>'free'\<close>: color, size, points\<close>
  | LineStroke string int point point   \<comment> \<open>mode \<open>'line'\<close>: color, size, start, end\<close>

datatype opmode = ModeResize | ModeCrop

record EditorState =
  rotation :: int
  filterv :: string
  drawings :: "stroke list"
  width :: "int option"
  height :: "int option"
  mode :: "opmode option"
  imageSrc :: "string option"

datatype ToolType = ToolNone | ToolResize | ToolCrop | ToolFilter | ToolRotate | ToolDraw | ToolText

datatype DrawMode = DrawFree | DrawLine

datatype CropRatio = Custom | Square | R3_2 | R4_3 | R5_4 | R7_5 | R16_9

datatype Align = AlignLeft | AlignCenter | AlignRight

record CropBox =
  leftp :: rat
  topp :: rat
  widthp :: rat
  heightp :: rat

record DragSession =
  kind :: string
  startX :: rat
  startY :: rat
  startBox :: CropBox

record TextObject =
  idv :: string
  textv :: string
  xp :: rat
  yp :: rat
  sizet :: int
  colort :: string
  bold :: bool
  italic :: bool
  underline :: bool
  align :: Align

text \<open>
  The component's state: one field for each \<open>useState\<close> variable that an editing operation
  reads or writes, and the \<open>imageUrl\<close> property. (The two colour-picker visibility flags
  are display state only and are left out.)
\<close>

record editor =
  imageUrl :: string
  history :: "EditorState list"
  historyIndex :: int
  currentImage :: string
  currentState :: EditorState
  activeTool :: ToolType
  drawMode :: DrawMode
  drawColor :: string
  brushSize :: int
  textBold :: bool
  textItalic :: bool
  textUnderline :: bool
  textAlign :: Align
  textColor :: string
  textSize :: int
  resizeWidth :: string
  resizeHeight :: string
  maintainRatio :: bool
  originalRatio :: rat
  isDrawing :: bool
  startPoint :: "point option"
  cropRatio :: CropRatio
  cropBox :: CropBox
  dragSession :: "DragSession option"
  isCreatingCrop :: bool
  textObjects :: "TextObject list"
  editingTextId :: "string option"

definition zeroBox :: CropBox where
  "zeroBox = \<lparr>leftp = 0, topp = 0, widthp = 0, heightp = 0\<rparr>"

definition baseline :: "string \<Rightarrow> EditorState" where
  \<comment> \<open>The object literal \<open>{rotation: 0, filter: 'none', drawings: [], imageSrc: imageUrl}\<close>.\<close>
  "baseline url =
     \<lparr>rotation = 0, filterv = ''none'', drawings = [], width = None, height = None,
      mode = None, imageSrc = Some url\<rparr>"

definition mount :: "string \<Rightarrow> editor" where
  \<comment> \<open>The initial values of the \<open>useState\<close> calls.\<close>
  "mount url =
     \<lparr>imageUrl = url, history = [], historyIndex = - 1, currentImage = url,
      currentState = baseline url, activeTool = ToolNone, drawMode = DrawFree,
      drawColor = ''#00a9ff'', brushSize = 12, textBold = False, textItalic = False,
      textUnderline = False, textAlign = AlignLeft, textColor = ''#00a9ff'', textSize = 50,
      resizeWidth = ''2000'', resizeHeight = ''1333'', maintainRatio = True,
      originalRatio = toDouble (2000 / 1333), isDrawing = False, startPoint = None,
      cropRatio = Custom,
      cropBox = zeroBox, dragSession = None, isCreatingCrop = False, textObjects = [],
      editingTextId = None\<rparr>"

definition truthy :: "int option \<Rightarrow> bool" where
  \<comment> \<open>The truth value of an optional number: \<open>undefined\<close> and \<open>0\<close> are falsy.\<close>
  "truthy v = (case v of None \<Rightarrow> False | Some n \<Rightarrow> n \<noteq> 0)"


section \<open>Edit history manager\<close>

definition openEditor :: "editor \<Rightarrow> editor" where
  \<comment> \<open>The effect that runs when \<open>isOpen\<close> becomes true.\<close>
  "openEditor s =
     s\<lparr>history := [baseline (imageUrl s)], historyIndex := 0,
       currentState := baseline (imageUrl s), currentImage := imageUrl s,
       activeTool := ToolNone\<rparr>"

definition pushState :: "EditorState \<Rightarrow> editor \<Rightarrow> editor" where
  "pushState newState s =
     (let newHistory = slice0 (history s) (historyIndex s + 1) @ [newState]
      in s\<lparr>history := newHistory, historyIndex := int (length newHistory) - 1,
           currentState := newState\<rparr>)"

definition showSnapshot :: "EditorState \<Rightarrow> editor \<Rightarrow> editor" where
  \<comment> \<open>The three conditional updates shared by undo and redo: the displayed image and the
      resize fields follow the snapshot where it has the values.\<close>
  "showSnapshot st s =
     (let s1 = (case imageSrc st of None \<Rightarrow> s
                | Some src \<Rightarrow> if src = [] then s else s\<lparr>currentImage := src\<rparr>);
          s2 = (case width st of None \<Rightarrow> s1
                | Some w \<Rightarrow> if w = 0 then s1 else s1\<lparr>resizeWidth := toString w\<rparr>)
      in (case height st of None \<Rightarrow> s2
          | Some h \<Rightarrow> if h = 0 then s2 else s2\<lparr>resizeHeight := toString h\<rparr>))"

definition handleUndo :: "editor \<Rightarrow> error + editor" where
  "handleUndo s =
     (if historyIndex s > 0 then
        (case index (history s) (historyIndex s - 1) of
           None \<Rightarrow> Inl TypeError
         | Some prevState \<Rightarrow>
             Inr (showSnapshot prevState
                    (s\<lparr>historyIndex := historyIndex s - 1, currentState := prevState\<rparr>)))
      else Inr s)"

definition handleRedo :: "editor \<Rightarrow> error + editor" where
  "handleRedo s =
     (if historyIndex s < int (length (history s)) - 1 then
        (case index (history s) (historyIndex s + 1) of
           None \<Rightarrow> Inl TypeError
         | Some nextState \<Rightarrow>
             Inr (showSnapshot nextState
                    (s\<lparr>historyIndex := historyIndex s + 1, currentState := nextState\<rparr>)))
      else Inr s)"

definition handleReset :: "editor \<Rightarrow> editor" where
  "handleReset s =
     (pushState (baseline (imageUrl s)) s)
       \<lparr>currentImage := imageUrl s, cropRatio := Custom, cropBox := zeroBox\<rparr>"

definition handleRotate :: "editor \<Rightarrow> editor" where
  "handleRotate s =
     pushState ((currentState s)\<lparr>rotation := js_rem (rotation (currentState s) + 90) 360\<rparr>) s"

fun indexOf :: "'a list \<Rightarrow> 'a \<Rightarrow> int" where
  \<comment> \<open>\<open>Array.prototype.indexOf\<close>: \<open>-1\<close> when the value is absent.\<close>
  "indexOf [] v = - 1"
| "indexOf (a # xs) v =
     (if a = v then 0 else (let r = indexOf xs v in if r < 0 then - 1 else r + 1))"

definition filters :: "string list" where
  "filters = [''none'', ''grayscale(100%)'', ''sepia(100%)'', ''blur(5px)'', ''brightness(150%)'']"

definition handleFilter :: "editor \<Rightarrow> editor" where
  "handleFilter s =
     (let currentIdx = indexOf filters (filterv (currentState s));
          nextIdx = js_rem (currentIdx + 1) (int (length filters))
      in pushState ((currentState s)\<lparr>filterv := filters ! nat nextIdx\<rparr>) s)"


section \<open>Resize controller\<close>

definition handleImageLoad :: "nat \<Rightarrow> nat \<Rightarrow> editor \<Rightarrow> error + editor" where
  \<comment> \<open>The arguments are \<open>naturalWidth\<close> and \<open>naturalHeight\<close> of the loaded image.\<close>
  "handleImageLoad naturalW naturalH s =
     (if naturalH = 0 then Inl NonFinite
      else
        (let s1 = s\<lparr>resizeWidth := toString (int naturalW),
                    resizeHeight := toString (int naturalH),
                    originalRatio := toDouble (of_nat naturalW / of_nat naturalH)\<rparr>
         in if \<not> truthy (width (currentState s)) then
              (let updatedState = (currentState s)\<lparr>width := Some (int naturalW),
                                                    height := Some (int naturalH)\<rparr>;
                   i = (if historyIndex s \<ge> 0 then historyIndex s else 0)
               in if history s = [] then Inr (s1\<lparr>currentState := updatedState\<rparr>)
                  else (case index (history s) i of
                          None \<Rightarrow> Inl SparseArray
                        | Some old \<Rightarrow>
                            Inr (s1\<lparr>currentState := updatedState,
                                    history := (history s)[nat i :=
                                      old\<lparr>width := Some (int naturalW),
                                          height := Some (int naturalH)\<rparr>]\<rparr>)))
            else Inr s1))"

definition handleResizeApply :: "editor \<Rightarrow> editor" where
  "handleResizeApply s =
     (case parseInt (resizeWidth s) of
        None \<Rightarrow> s
      | Some w \<Rightarrow>
          (case parseInt (resizeHeight s) of
             None \<Rightarrow> s
           | Some h \<Rightarrow>
               (pushState ((currentState s)\<lparr>width := Some w, height := Some h,
                                           mode := Some ModeResize\<rparr>) s)
                 \<lparr>activeTool := ToolNone\<rparr>))"

definition onResizeWidthChange :: "string \<Rightarrow> editor \<Rightarrow> error + editor" where
  \<comment> \<open>\<open>onChange\<close> of the width field.\<close>
  "onResizeWidthChange val s =
     (let s1 = s\<lparr>resizeWidth := val\<rparr>
      in if maintainRatio s then
           (case parseInt val of
              None \<Rightarrow> Inr s1
            | Some w \<Rightarrow>
                if originalRatio s = 0 then Inl NonFinite
                else Inr (s1\<lparr>resizeHeight :=
                            toString (Math_round (toDouble (of_int w / originalRatio s)))\<rparr>))
         else Inr s1)"

definition onResizeHeightChange :: "string \<Rightarrow> editor \<Rightarrow> editor" where
  \<comment> \<open>\<open>onChange\<close> of the height field.\<close>
  "onResizeHeightChange val s =
     (let s1 = s\<lparr>resizeHeight := val\<rparr>
      in if maintainRatio s then
           (case parseInt val of
              None \<Rightarrow> s1
            | Some h \<Rightarrow>
                s1\<lparr>resizeWidth :=
                     toString (Math_round (toDouble (of_int h * originalRatio s)))\<rparr>)
         else s1)"


section \<open>Crop controller\<close>

definition ratios :: "CropRatio \<Rightarrow> rat option" where
  "ratios r =
     (case r of Custom \<Rightarrow> None | Square \<Rightarrow> Some 1 | R3_2 \<Rightarrow> Some (3 / 2)
      | R4_3 \<Rightarrow> Some (4 / 3) | R5_4 \<Rightarrow> Some (5 / 4) | R7_5 \<Rightarrow> Some (7 / 5)
      | R16_9 \<Rightarrow> Some (16 / 9))"

definition orElse :: "int option \<Rightarrow> int \<Rightarrow> int" where
  \<comment> \<open>\<open>a || b\<close> on an optional number.\<close>
  "orElse a b = (case a of None \<Rightarrow> b | Some n \<Rightarrow> if n = 0 then b else n)"

definition cropFinalSize :: "CropRatio \<Rightarrow> CropBox \<Rightarrow> rat \<Rightarrow> rat \<Rightarrow> (rat \<times> rat) option" where
  \<comment> \<open>\<open>finalWidth\<close> and \<open>finalHeight\<close> of \<open>handleCropApply\<close>; \<open>None\<close> is one of the two
      early returns of the validation of a custom box.\<close>
  "cropFinalSize r box w h =
     (if r = Custom then
        (if widthp box < 1 \<or> heightp box < 1 then None
         else
           (let finalWidth = (w * widthp box) / 100;
                finalHeight = (h * heightp box) / 100
            in if finalWidth < 10 \<or> finalHeight < 10 then None
               else Some (finalWidth, finalHeight)))
      else
        (case ratios r of
           None \<Rightarrow> Some (w, h)
         | Some tr \<Rightarrow> if w / h > tr then Some (h * tr, h) else Some (w, w / tr)))"

definition cropSourceRect :: "CropRatio \<Rightarrow> CropBox \<Rightarrow> rat \<Rightarrow> rat \<Rightarrow> rat \<times> rat \<times> rat \<times> rat" where
  \<comment> \<open>The source rectangle \<open>(sx, sy, sw, sh)\<close> handed to \<open>drawImage\<close>.\<close>
  "cropSourceRect r box w h =
     (if r = Custom then
        ((w * leftp box) / 100, (h * topp box) / 100,
         (w * widthp box) / 100, (h * heightp box) / 100)
      else
        (case ratios r of
           None \<Rightarrow> (0, 0, w, h)
         | Some tr \<Rightarrow>
             if w / h > tr then ((w - h * tr) / 2, 0, h * tr, h)
             else (0, (h - w / tr) / 2, w, w / tr)))"

text \<open>
  What \<open>handleCropApply\<close> reads from the page: the image element (\<open>None\<close> when the
  reference is empty) with its natural dimensions, whether the new canvas yields a 2D
  context, and the outcome of \<open>drawImage\<close> followed by \<open>toDataURL\<close> for a source
  rectangle and a canvas size (\<open>None\<close> when one of them throws).
\<close>

record CropEnv =
  img :: "(nat \<times> nat) option"
  hasContext :: bool
  render :: "rat \<times> rat \<times> rat \<times> rat \<Rightarrow> int \<times> int \<Rightarrow> string option"

definition handleCropApply :: "CropEnv \<Rightarrow> editor \<Rightarrow> error + editor" where
  "handleCropApply env s =
     (case img env of
        None \<Rightarrow> Inr s
      | Some (naturalW, naturalH) \<Rightarrow>
          (let w = orElse (width (currentState s)) (int naturalW);
               h = orElse (height (currentState s)) (int naturalH)
           in if w = 0 \<or> h = 0 then Inr s
              else
                (case cropFinalSize (cropRatio s) (cropBox s) (of_int w) (of_int h) of
                   None \<Rightarrow> Inr s
                 | Some (finalWidth, finalHeight) \<Rightarrow>
                     (let roundedWidth = Math_round finalWidth;
                          roundedHeight = Math_round finalHeight
                      in if \<not> hasContext env then Inr s
                         else
                           (case render env
                                   (cropSourceRect (cropRatio s) (cropBox s) (of_int w) (of_int h))
                                   (roundedWidth, roundedHeight) of
                              None \<Rightarrow> Inr (s\<lparr>activeTool := ToolNone\<rparr>)
                            | Some croppedDataUrl \<Rightarrow>
                                if roundedHeight = 0 then Inl NonFinite
                                else
                                  Inr ((pushState
                                          ((currentState s)\<lparr>width := Some roundedWidth,
                                             height := Some roundedHeight,
                                             mode := Some ModeCrop,
                                             imageSrc := Some croppedDataUrl\<rparr>)
                                          (s\<lparr>originalRatio :=
                                               toDouble (of_int roundedWidth
                                                           / of_int roundedHeight),
                                             currentImage := croppedDataUrl\<rparr>))
                                        \<lparr>resizeWidth := toString roundedWidth,
                                         resizeHeight := toString roundedHeight,
                                         cropBox := zeroBox,
                                         activeTool := ToolNone\<rparr>))))))"

record MouseEvent =
  clientX :: rat
  clientY :: rat

record Rect =
  rleft :: rat
  rtop :: rat
  rwidth :: rat
  rheight :: rat

definition handleCropBoxMouseDown :: "MouseEvent \<Rightarrow> string \<Rightarrow> editor \<Rightarrow> editor" where
  "handleCropBoxMouseDown e type s =
     s\<lparr>dragSession := Some \<lparr>kind = type, startX = clientX e, startY = clientY e,
                             startBox = cropBox s\<rparr>\<rparr>"

definition percentAt :: "MouseEvent \<Rightarrow> Rect \<Rightarrow> rat \<times> rat" where
  \<comment> \<open>The pointer position as percentages of the container, clamped to \<open>[0, 100]\<close>.\<close>
  "percentAt e rect =
     (max 0 (min 100 (((clientX e - rleft rect) / rwidth rect) * 100)),
      max 0 (min 100 (((clientY e - rtop rect) / rheight rect) * 100)))"

definition handleEditorMouseDown :: "MouseEvent \<Rightarrow> Rect option \<Rightarrow> nat \<Rightarrow> editor \<Rightarrow> error + editor" where
  \<comment> \<open>The second argument is the bounding rectangle of the image's container (\<open>None\<close> when
      there is no container), the third the value of \<open>Date.now()\<close>.\<close>
  "handleEditorMouseDown e container now s =
     (if activeTool s = ToolText then
        (case container of
           None \<Rightarrow> Inr s
         | Some rect \<Rightarrow>
             if rwidth rect = 0 \<or> rheight rect = 0 then Inl NonFinite
             else
               (let (xPercent, yPercent) = percentAt e rect;
                    newTextId = ''text-'' @ toString (int now);
                    newText = \<lparr>idv = newTextId, textv = [], xp = xPercent, yp = yPercent,
                               sizet = textSize s, colort = textColor s, bold = textBold s,
                               italic = textItalic s, underline = textUnderline s,
                               align = textAlign s\<rparr>
                in Inr (s\<lparr>textObjects := textObjects s @ [newText],
                          editingTextId := Some newTextId\<rparr>)))
      else if activeTool s \<noteq> ToolCrop \<or> cropRatio s \<noteq> Custom then Inr s
      else
        (case container of
           None \<Rightarrow> Inr s
         | Some rect \<Rightarrow>
             if rwidth rect = 0 \<or> rheight rect = 0 then Inl NonFinite
             else
               (let (startXPercent, startYPercent) = percentAt e rect;
                    box = \<lparr>leftp = startXPercent, topp = startYPercent, widthp = 0,
                           heightp = 0\<rparr>
                in Inr (s\<lparr>isCreatingCrop := True, cropBox := box,
                          dragSession := Some \<lparr>kind = ''create'', startX = clientX e,
                                                startY = clientY e, startBox = box\<rparr>\<rparr>))))"

definition dragBox :: "DragSession \<Rightarrow> rat \<Rightarrow> rat \<Rightarrow> CropBox" where
  \<comment> \<open>The box that \<open>handleEditorMouseMove\<close> computes from the box at the start of the drag
      and the pointer's displacement in percent.\<close>
  "dragBox d deltaX deltaY =
     (let sb = startBox d;
          b1 =
            (if kind d = ''create'' then
               (let bx = (if deltaX \<ge> 0
                          then sb\<lparr>leftp := leftp sb, widthp := min (100 - leftp sb) deltaX\<rparr>
                          else (let newLeft = max 0 (leftp sb + deltaX)
                                in sb\<lparr>leftp := newLeft, widthp := leftp sb - newLeft\<rparr>))
                in if deltaY \<ge> 0
                   then bx\<lparr>topp := topp sb, heightp := min (100 - topp sb) deltaY\<rparr>
                   else (let newTop = max 0 (topp sb + deltaY)
                         in bx\<lparr>topp := newTop, heightp := topp sb - newTop\<rparr>))
             else if kind d = ''move'' then
               sb\<lparr>leftp := max 0 (min (100 - widthp sb) (leftp sb + deltaX)),
                  topp := max 0 (min (100 - heightp sb) (topp sb + deltaY))\<rparr>
             else if str_includes (kind d) ''right'' then
               sb\<lparr>widthp := max 5 (min (100 - leftp sb) (widthp sb + deltaX))\<rparr>
             else if str_includes (kind d) ''left'' then
               (let possibleX = max 0 (min (leftp sb + widthp sb - 5) (leftp sb + deltaX))
                in sb\<lparr>widthp := widthp sb + (leftp sb - possibleX), leftp := possibleX\<rparr>)
             else sb)
      in if kind d \<noteq> ''create'' then
           (if str_includes (kind d) ''bottom'' then
              b1\<lparr>heightp := max 5 (min (100 - topp b1) (heightp sb + deltaY))\<rparr>
            else if str_includes (kind d) ''top'' then
              (let possibleY = max 0 (min (topp sb + heightp sb - 5) (topp sb + deltaY))
               in b1\<lparr>heightp := heightp sb + (topp sb - possibleY), topp := possibleY\<rparr>)
            else b1)
         else b1)"

definition handleEditorMouseMove :: "MouseEvent \<Rightarrow> Rect option \<Rightarrow> editor \<Rightarrow> error + editor" where
  "handleEditorMouseMove e container s =
     (case dragSession s of
        None \<Rightarrow> Inr s
      | Some d \<Rightarrow>
          (case container of
             None \<Rightarrow> Inr s
           | Some rect \<Rightarrow>
               if rwidth rect = 0 \<or> rheight rect = 0 then Inl NonFinite
               else
                 (let deltaX = ((clientX e - startX d) / rwidth rect) * 100;
                      deltaY = ((clientY e - startY d) / rheight rect) * 100
                  in Inr (s\<lparr>cropBox := dragBox d deltaX deltaY\<rparr>))))"

definition handleEditorMouseUp :: "editor \<Rightarrow> editor" where
  "handleEditorMouseUp s = s\<lparr>dragSession := None, isCreatingCrop := False\<rparr>"

definition cancelCrop :: "editor \<Rightarrow> editor" where
  \<comment> \<open>The cancel button of the crop toolbar.\<close>
  "cancelCrop s = s\<lparr>cropRatio := Custom, cropBox := zeroBox, activeTool := ToolNone\<rparr>"


section \<open>Draw controller\<close>

text \<open>
  The canvas element as the handlers read it: its \<open>width\<close> and \<open>height\<close> attributes and
  its bounding rectangle on the page.
\<close>

record Canvas =
  cwidth :: rat
  cheight :: rat
  crect :: Rect

definition canvasPoint :: "MouseEvent \<Rightarrow> Canvas \<Rightarrow> point" where
  \<comment> \<open>The pointer position in the canvas's own pixel space.\<close>
  "canvasPoint e canvas =
     (let rect = crect canvas;
          scaleX = cwidth canvas / rwidth rect;
          scaleY = cheight canvas / rheight rect
      in ((clientX e - rleft rect) * scaleX, (clientY e - rtop rect) * scaleY))"

definition handleCanvasMouseDown :: "MouseEvent \<Rightarrow> Canvas option \<Rightarrow> editor \<Rightarrow> error + editor" where
  "handleCanvasMouseDown e canvasRef s =
     (if activeTool s \<noteq> ToolDraw then Inr s
      else
        (case canvasRef of
           None \<Rightarrow> Inr s
         | Some canvas \<Rightarrow>
             if rwidth (crect canvas) = 0 \<or> rheight (crect canvas) = 0 then Inl NonFinite
             else
               (let p = canvasPoint e canvas;
                    s1 = s\<lparr>isDrawing := True, startPoint := Some p\<rparr>
                in if drawMode s = DrawFree then
                     (let newDrawing = FreeStroke (drawColor s) (brushSize s) [p]
                      in Inr (s1\<lparr>currentState := (currentState s)
                                  \<lparr>drawings := drawings (currentState s) @ [newDrawing]\<rparr>\<rparr>))
                   else Inr s1)))"

definition extendLast :: "stroke list \<Rightarrow> point \<Rightarrow> error + stroke list" where
  \<comment> \<open>The state update of a freehand move: the last stroke gets one more point. With no
      stroke, or a last stroke without \<open>points\<close>, the update throws.\<close>
  "extendLast ds p =
     (case index ds (int (length ds) - 1) of
        None \<Rightarrow> Inl TypeError
      | Some (LineStroke c n a b) \<Rightarrow> Inl TypeError
      | Some (FreeStroke c n ps) \<Rightarrow> Inr (ds[length ds - 1 := FreeStroke c n (ps @ [p])]))"

definition handleCanvasMouseMove :: "MouseEvent \<Rightarrow> Canvas option \<Rightarrow> editor \<Rightarrow> error + editor" where
  "handleCanvasMouseMove e canvasRef s =
     (if \<not> isDrawing s \<or> activeTool s \<noteq> ToolDraw then Inr s
      else
        (case canvasRef of
           None \<Rightarrow> Inr s
         | Some canvas \<Rightarrow>
             if rwidth (crect canvas) = 0 \<or> rheight (crect canvas) = 0 then Inl NonFinite
             else if drawMode s = DrawFree then
               (case extendLast (drawings (currentState s)) (canvasPoint e canvas) of
                  Inl err \<Rightarrow> Inl err
                | Inr newDrawings \<Rightarrow>
                    Inr (s\<lparr>currentState := (currentState s)\<lparr>drawings := newDrawings\<rparr>\<rparr>))
             else Inr s))"

definition handleCanvasMouseUp :: "MouseEvent \<Rightarrow> Canvas option \<Rightarrow> editor \<Rightarrow> error + editor" where
  "handleCanvasMouseUp e canvasRef s =
     (if \<not> isDrawing s \<or> activeTool s \<noteq> ToolDraw then Inr s
      else
        (case canvasRef of
           None \<Rightarrow> Inr s
         | Some canvas \<Rightarrow>
             if rwidth (crect canvas) = 0 \<or> rheight (crect canvas) = 0 then Inl NonFinite
             else
               (let p = canvasPoint e canvas;
                    s1 = (if drawMode s = DrawLine \<and> startPoint s \<noteq> None then
                            (case startPoint s of
                               None \<Rightarrow> s
                             | Some start \<Rightarrow>
                                 (let newDrawing = LineStroke (drawColor s) (brushSize s) start p;
                                      updatedState = (currentState s)
                                        \<lparr>drawings := drawings (currentState s) @ [newDrawing]\<rparr>
                                  in pushState updatedState s))
                          else if drawMode s = DrawFree then pushState (currentState s) s
                          else s)
                in Inr (s1\<lparr>isDrawing := False, startPoint := None\<rparr>))))"


section \<open>Text controller\<close>

text \<open>
  The handlers of a text object are closures over the object they were rendered for; the
  model passes that object as an argument. The delays that the source puts before focusing
  the new input and before acting on a blur are not modelled: each handler acts on the
  state at the time of the event.
\<close>

definition removeText :: "TextObject \<Rightarrow> editor \<Rightarrow> editor" where
  \<comment> \<open>\<open>setTextObjects(textObjects.filter(t => t.id !== textObj.id))\<close>, from the delete
      button and the Delete and Backspace keys.\<close>
  "removeText textObj s =
     s\<lparr>textObjects := filter (\<lambda>t. idv t \<noteq> idv textObj) (textObjects s)\<rparr>"

definition onTextChange :: "TextObject \<Rightarrow> string \<Rightarrow> editor \<Rightarrow> editor" where
  "onTextChange textObj val s =
     s\<lparr>textObjects :=
         map (\<lambda>t. if idv t = idv textObj then t\<lparr>textv := val\<rparr> else t) (textObjects s)\<rparr>"

definition onTextBlur :: "TextObject \<Rightarrow> editor \<Rightarrow> editor" where
  "onTextBlur textObj s =
     (let s1 = (if trim (textv textObj) = [] then removeText textObj s else s)
      in s1\<lparr>editingTextId := None\<rparr>)"

datatype Key = Enter | Escape | OtherKey

definition onTextKeyDown :: "TextObject \<Rightarrow> Key \<Rightarrow> editor \<Rightarrow> editor" where
  "onTextKeyDown textObj key s =
     (case key of
        Enter \<Rightarrow> onTextBlur textObj s
      | Escape \<Rightarrow> (removeText textObj s)\<lparr>editingTextId := None\<rparr>
      | OtherKey \<Rightarrow> s)"

definition onTextClick :: "TextObject \<Rightarrow> editor \<Rightarrow> editor" where
  "onTextClick textObj s = s\<lparr>editingTextId := Some (idv textObj)\<rparr>"


section \<open>The editor as a transition system\<close>

datatype event =
    Open
  | ImageLoad nat nat
  | Undo
  | Redo
  | Reset
  | ToolButton ToolType
  | ResizeWidthChange string
  | ResizeHeightChange string
  | MaintainRatioChange bool
  | ResizeApply
  | CropRatioButton CropRatio
  | CropApply CropEnv
  | CropCancel
  | CropBoxMouseDown MouseEvent string
  | EditorMouseDown MouseEvent "Rect option" nat
  | EditorMouseMove MouseEvent "Rect option"
  | EditorMouseUp
  | CanvasMouseDown MouseEvent "Canvas option"
  | CanvasMouseMove MouseEvent "Canvas option"
  | CanvasMouseUp MouseEvent "Canvas option"
  | DrawModeButton DrawMode
  | DrawColorChange string
  | BrushSizeChange int
  | TextStyleChange bool bool bool Align string int
  | TextChange TextObject string
  | TextBlur TextObject
  | TextKeyDown TextObject Key
  | TextClick TextObject
  | TextDelete TextObject

definition toolButton :: "ToolType \<Rightarrow> editor \<Rightarrow> editor" where
  \<comment> \<open>The toolbar: the filter and rotate buttons apply their operation at once, the draw
      button toggles.\<close>
  "toolButton t s =
     (case t of
        ToolFilter \<Rightarrow> (handleFilter s)\<lparr>activeTool := ToolFilter\<rparr>
      | ToolRotate \<Rightarrow> (handleRotate s)\<lparr>activeTool := ToolRotate\<rparr>
      | ToolDraw \<Rightarrow> s\<lparr>activeTool := (if activeTool s = ToolDraw then ToolNone else ToolDraw)\<rparr>
      | _ \<Rightarrow> s\<lparr>activeTool := t\<rparr>)"

fun step :: "event \<Rightarrow> editor \<Rightarrow> error + editor" where
  "step Open s = Inr (openEditor s)"
| "step (ImageLoad naturalW naturalH) s = handleImageLoad naturalW naturalH s"
| "step Undo s = handleUndo s"
| "step Redo s = handleRedo s"
| "step Reset s = Inr (handleReset s)"
| "step (ToolButton t) s = Inr (toolButton t s)"
| "step (ResizeWidthChange val) s = onResizeWidthChange val s"
| "step (ResizeHeightChange val) s = Inr (onResizeHeightChange val s)"
| "step (MaintainRatioChange b) s = Inr (s\<lparr>maintainRatio := b\<rparr>)"
| "step ResizeApply s = Inr (handleResizeApply s)"
| "step (CropRatioButton r) s = Inr (s\<lparr>cropRatio := r\<rparr>)"
| "step (CropApply env) s = handleCropApply env s"
| "step CropCancel s = Inr (cancelCrop s)"
| "step (CropBoxMouseDown e type) s = Inr (handleCropBoxMouseDown e type s)"
| "step (EditorMouseDown e container now) s = handleEditorMouseDown e container now s"
| "step (EditorMouseMove e container) s = handleEditorMouseMove e container s"
| "step EditorMouseUp s = Inr (handleEditorMouseUp s)"
| "step (CanvasMouseDown e canvasRef) s = handleCanvasMouseDown e canvasRef s"
| "step (CanvasMouseMove e canvasRef) s = handleCanvasMouseMove e canvasRef s"
| "step (CanvasMouseUp e canvasRef) s = handleCanvasMouseUp e canvasRef s"
| "step (DrawModeButton m) s = Inr (s\<lparr>drawMode := m\<rparr>)"
| "step (DrawColorChange c) s = Inr (s\<lparr>drawColor := c\<rparr>)"
| "step (BrushSizeChange n) s = Inr (s\<lparr>brushSize := n\<rparr>)"
| "step (TextStyleChange b i u a c n) s =
     Inr (s\<lparr>textBold := b, textItalic := i, textUnderline := u, textAlign := a,
             textColor := c, textSize := n\<rparr>)"
| "step (TextChange textObj val) s = Inr (onTextChange textObj val s)"
| "step (TextBlur textObj) s = Inr (onTextBlur textObj s)"
| "step (TextKeyDown textObj key) s = Inr (onTextKeyDown textObj key s)"
| "step (TextClick textObj) s = Inr (onTextClick textObj s)"
| "step (TextDelete textObj) s = Inr (removeText textObj s)"

fun run :: "event list \<Rightarrow> editor \<Rightarrow> error + editor" where
  \<comment> \<open>A sequence of events, each handled on the state the previous one left.\<close>
  "run [] s = Inr s"
| "run (ev # evs) s = (case step ev s of Inl err \<Rightarrow> Inl err | Inr s' \<Rightarrow> run evs s')"


section \<open>Scenarios\<close>

text \<open>Sequences of operations and concrete states that the statements below speak about.\<close>

fun pushAll :: "EditorState list \<Rightarrow> editor \<Rightarrow> editor" where
  \<comment> \<open>Consecutive calls of \<open>pushState\<close>.\<close>
  "pushAll [] s = s"
| "pushAll (st # sts) s = pushAll sts (pushState st s)"

fun undoN :: "nat \<Rightarrow> editor \<Rightarrow> error + editor" where
  \<comment> \<open>Consecutive calls of \<open>handleUndo\<close>.\<close>
  "undoN 0 s = Inr s"
| "undoN (Suc k) s = (case handleUndo s of Inl err \<Rightarrow> Inl err | Inr s' \<Rightarrow> undoN k s')"

definition stA :: EditorState where
  "stA = baseline ''a''"

definition stB :: EditorState where
  "stB = (baseline ''a'')\<lparr>rotation := 90\<rparr>"

definition stC :: EditorState where
  "stC = (baseline ''a'')\<lparr>rotation := 180\<rparr>"

definition threeDeep :: editor where
  \<comment> \<open>Three states pushed onto the empty history.\<close>
  "threeDeep = pushAll [stA, stB, stC] (mount ''a'')"

definition loaded :: "nat \<Rightarrow> nat \<Rightarrow> editor" where
  \<comment> \<open>The editor after it was opened on image \<open>a\<close> and the image, of the given natural
      dimensions, has loaded.\<close>
  "loaded nw nh =
     (let st = (baseline ''a'')\<lparr>width := Some (int nw), height := Some (int nh)\<rparr>
      in (openEditor (mount ''a''))\<lparr>history := [st], currentState := st,
            resizeWidth := toString (int nw), resizeHeight := toString (int nh),
            originalRatio := toDouble (of_nat nw / of_nat nh)\<rparr>)"



definition dragPending :: editor where
  \<comment> \<open>A loaded editor in which the pointer went down at \<open>(100, 100)\<close> with the crop tool
      active and has not come up yet.\<close>
  "dragPending =
     (let box = \<lparr>leftp = 10, topp = 10, widthp = 0, heightp = 0\<rparr>
      in (loaded 1000 1000)\<lparr>activeTool := ToolCrop, isCreatingCrop := True, cropBox := box,
            dragSession := Some \<lparr>kind = ''create'', startX = 100, startY = 100,
                                  startBox = box\<rparr>\<rparr>)"

definition page1000 :: Rect where
  \<comment> \<open>A container of 1000 by 1000 CSS pixels at the origin of the viewport.\<close>
  "page1000 = \<lparr>rleft = 0, rtop = 0, rwidth = 1000, rheight = 1000\<rparr>"

definition dragStart :: "MouseEvent \<Rightarrow> MouseEvent list \<Rightarrow> Canvas \<Rightarrow> event list" where
  \<comment> \<open>Pointer down on the canvas followed by pointer moves.\<close>
  "dragStart e0 moves cv =
     CanvasMouseDown e0 (Some cv) # map (\<lambda>e. CanvasMouseMove e (Some cv)) moves"

definition drag :: "MouseEvent \<Rightarrow> MouseEvent list \<Rightarrow> MouseEvent \<Rightarrow> Canvas \<Rightarrow> event list" where
  \<comment> \<open>A complete drag: down, moves, up.\<close>
  "drag e0 moves eu cv = dragStart e0 moves cv @ [CanvasMouseUp eu (Some cv)]"

definition canvas1200 :: Canvas where
  \<comment> \<open>A canvas of 1200 by 800 pixels displayed at its own size at the origin.\<close>
  "canvas1200 = \<lparr>cwidth = 1200, cheight = 800,
                  crect = \<lparr>rleft = 0, rtop = 0, rwidth = 1200, rheight = 800\<rparr>\<rparr>"

definition drawScene :: "DrawMode \<Rightarrow> editor" where
  \<comment> \<open>A loaded editor with the draw tool active in the given mode.\<close>
  "drawScene m = (loaded 1200 800)\<lparr>activeTool := ToolDraw, drawMode := m\<rparr>"

definition pointer :: "rat \<Rightarrow> rat \<Rightarrow> MouseEvent" where
  \<comment> \<open>A pointer event at the given viewport position.\<close>
  "pointer x y = \<lparr>clientX = x, clientY = y\<rparr>"

definition typed :: "string \<Rightarrow> TextObject" where
  \<comment> \<open>The text object created by a click at \<open>(500, 250)\<close> at time 0, holding the given text.\<close>
  "typed t = \<lparr>idv = ''text-0'', textv = t, xp = 50, yp = 25, sizet = 50, colort = ''#00a9ff'',
              bold = False, italic = False, underline = False, align = AlignLeft\<rparr>"

definition textScene :: "string \<Rightarrow> editor" where
  \<comment> \<open>A loaded editor with the text tool active after that click and after the given text
      was typed into the new object, which is still being edited.\<close>
  "textScene t = (loaded 1000 1000)\<lparr>activeTool := ToolText, textObjects := [typed t],
                    editingTextId := Some ''text-0''\<rparr>"

definition pushed :: "editor \<Rightarrow> editor \<Rightarrow> bool" where
  \<comment> \<open>The second state's history is the first one's after one \<open>pushState\<close>.\<close>
  "pushed s s' =
     (history s' = slice0 (history s) (historyIndex s + 1) @ [currentState s'] \<and>
      historyIndex s' = int (length (history s')) - 1)"

definition positiveDims :: "EditorState \<Rightarrow> bool" where
  \<comment> \<open>Width and height, where present, are positive.\<close>
  "positiveDims st =
     ((case width st of None \<Rightarrow> True | Some w \<Rightarrow> 0 < w) \<and>
      (case height st of None \<Rightarrow> True | Some h \<Rightarrow> 0 < h))"






definition wellFormed :: "editor \<Rightarrow> bool" where
  \<comment> \<open>The cursor points into the history; a start point is recorded exactly while a drag on
      the canvas is in progress; outside such a drag the current state is the snapshot at
      the cursor.\<close>
  "wellFormed s =
     (0 \<le> historyIndex s \<and> historyIndex s < int (length (history s)) \<and>
      (isDrawing s \<longleftrightarrow> startPoint s \<noteq> None) \<and>
      (\<not> isDrawing s \<longrightarrow> currentState s = history s ! nat (historyIndex s)))"

definition sameCore :: "editor \<Rightarrow> editor \<Rightarrow> bool" where
  \<comment> \<open>The two states agree on the history, the cursor, the current state and the drawing
      flags.\<close>
  "sameCore s s' =
     (history s' = history s \<and> historyIndex s' = historyIndex s \<and>
      currentState s' = currentState s \<and> isDrawing s' = isDrawing s \<and>
      startPoint s' = startPoint s)"


section \<open>Properties of the edit history\<close>

lemma showSnapshot_fields [simp]:
  "history (showSnapshot st s) = history s"
  "historyIndex (showSnapshot st s) = historyIndex s"
  "currentState (showSnapshot st s) = currentState s"
  by (simp_all add: showSnapshot_def Let_def split: option.splits)

lemma pushState_fields:
  "history (pushState st s) = slice0 (history s) (historyIndex s + 1) @ [st]"
  "historyIndex (pushState st s) = int (length (history (pushState st s))) - 1"
  "currentState (pushState st s) = st"
  by (simp_all add: pushState_def Let_def)

lemma pushState_tip:
  assumes "historyIndex s = int (length (history s)) - 1"
  shows "history (pushState st s) = history s @ [st]"
    and "historyIndex (pushState st s) = int (length (history s))"
  using assms by (simp_all add: pushState_fields slice0_def)

lemma pushAll_tip:
  "historyIndex s = int (length (history s)) - 1 \<Longrightarrow>
   history (pushAll sts s) = history s @ sts \<and>
   historyIndex (pushAll sts s) = int (length (history s) + length sts) - 1 \<and>
   (sts \<noteq> [] \<longrightarrow> currentState (pushAll sts s) = last sts)"
proof (induction sts arbitrary: s)
  case Nil
  then show ?case by simp
next
  case (Cons st sts)
  have tip: "historyIndex (pushState st s) = int (length (history (pushState st s))) - 1"
    by (simp add: pushState_fields)
  show ?case
    using Cons.IH [OF tip] Cons.prems
    by (cases sts) (simp_all add: pushState_tip pushState_fields(3))
qed

lemma undoN_steps:
  "int k \<le> historyIndex s \<Longrightarrow> historyIndex s < int (length (history s)) \<Longrightarrow>
   \<exists>s'. undoN k s = Inr s' \<and> history s' = history s \<and>
        historyIndex s' = historyIndex s - int k \<and>
        (0 < k \<longrightarrow> currentState s' = history s ! nat (historyIndex s - int k))"
proof (induction k arbitrary: s)
  case 0
  then show ?case by simp
next
  case (Suc k)
  let ?p = "history s ! nat (historyIndex s - 1)"
  let ?s1 = "showSnapshot ?p (s\<lparr>historyIndex := historyIndex s - 1, currentState := ?p\<rparr>)"
  have u: "handleUndo s = Inr ?s1"
    using Suc.prems by (simp add: handleUndo_def index_def)
  have a: "int k \<le> historyIndex ?s1" and b: "historyIndex ?s1 < int (length (history ?s1))"
    using Suc.prems by simp_all
  from Suc.IH [OF a b] obtain s' where
    s': "undoN k ?s1 = Inr s'" "history s' = history ?s1"
      "historyIndex s' = historyIndex ?s1 - int k"
      "0 < k \<longrightarrow> currentState s' = history ?s1 ! nat (historyIndex ?s1 - int k)"
    by blast
  have cur: "currentState s' = history s ! nat (historyIndex s - int (Suc k))"
  proof (cases k)
    case 0
    with s'(1) have "s' = ?s1" by simp
    then show ?thesis using 0 by simp
  next
    case (Suc j)
    with s' show ?thesis by (simp add: algebra_simps)
  qed
  show ?case
    using u s' cur by (simp add: algebra_simps)
qed

lemma threeDeep_fields:
  "history threeDeep = [stA, stB, stC]"
  "historyIndex threeDeep = 2"
  "currentState threeDeep = stC"
  by (simp_all add: threeDeep_def pushState_def Let_def slice0_def mount_def)

text \<open>
  C1. Starting from the empty history (the state of the component before the editor is
  opened), \<open>N\<close> pushes leave the cursor at \<open>N - 1\<close>; after them, \<open>k\<close> undos (for every
  \<open>k < N\<close>, in particular \<open>k = N - 1\<close>) succeed and show the pushed states in reverse
  order, ending at the first one with the cursor at \<open>0\<close>. Undo changes nothing when the
  cursor is at \<open>0\<close> (or below), redo changes nothing when the cursor is at the tip.
\<close>

theorem history_push_undo:
  assumes "history s = []" and "historyIndex s = - 1"
  shows "historyIndex (pushAll sts s) = int (length sts) - 1 \<and>
         (\<forall>k<length sts. \<exists>s'. undoN k (pushAll sts s) = Inr s' \<and>
              currentState s' = sts ! (length sts - 1 - k) \<and>
              historyIndex s' = int (length sts) - 1 - int k) \<and>
         (historyIndex t \<le> 0 \<longrightarrow> handleUndo t = Inr t) \<and>
         (int (length (history t)) - 1 \<le> historyIndex t \<longrightarrow> handleRedo t = Inr t)"
proof -
  have tip: "historyIndex s = int (length (history s)) - 1"
    using assms by simp
  note P = pushAll_tip [OF tip, of sts]
  have h: "history (pushAll sts s) = sts"
    and i: "historyIndex (pushAll sts s) = int (length sts) - 1"
    using P assms by simp_all
  have undo: "\<exists>s'. undoN k (pushAll sts s) = Inr s' \<and>
              currentState s' = sts ! (length sts - 1 - k) \<and>
              historyIndex s' = int (length sts) - 1 - int k" if k: "k < length sts" for k
  proof -
    have a: "int k \<le> historyIndex (pushAll sts s)" using k i by simp
    have b: "historyIndex (pushAll sts s) < int (length (history (pushAll sts s)))"
      using h i by simp
    from undoN_steps [OF a b] obtain s' where
      s': "undoN k (pushAll sts s) = Inr s'"
        "historyIndex s' = historyIndex (pushAll sts s) - int k"
        "0 < k \<longrightarrow> currentState s' =
           history (pushAll sts s) ! nat (historyIndex (pushAll sts s) - int k)"
      by blast
    have idx: "nat (int (length sts) - 1 - int k) = length sts - 1 - k"
      using k by simp
    have cur: "currentState s' = sts ! (length sts - 1 - k)"
    proof (cases k)
      case 0
      then have "s' = pushAll sts s" using s'(1) by simp
      moreover have "sts \<noteq> []" using k by auto
      ultimately show ?thesis using P 0 by (simp add: last_conv_nth)
    next
      case (Suc j)
      then show ?thesis using s'(3) h i idx by simp
    qed
    show ?thesis using s' cur i by simp
  qed
  show ?thesis
    using i undo by (simp add: handleUndo_def handleRedo_def)
qed

theorem history_push_undo_witness:
  "history (mount ''a'') = [] \<and> historyIndex (mount ''a'') = - 1 \<and>
   historyIndex (pushAll [stA, stB, stC] (mount ''a'')) = 2 \<and>
   (\<exists>s'. undoN 2 (pushAll [stA, stB, stC] (mount ''a'')) = Inr s' \<and>
         currentState s' = stA \<and> historyIndex s' = 0) \<and>
   handleUndo (openEditor (mount ''a'')) = Inr (openEditor (mount ''a'')) \<and>
   handleRedo (openEditor (mount ''a'')) = Inr (openEditor (mount ''a''))"
proof -
  have e: "history (mount ''a'') = []" and i: "historyIndex (mount ''a'') = - 1"
    by (simp_all add: mount_def)
  have two: "(2::nat) < length [stA, stB, stC]" by simp
  note T = history_push_undo [OF e i, of "[stA, stB, stC]" "openEditor (mount ''a'')"]
  from T have n: "historyIndex (pushAll [stA, stB, stC] (mount ''a'')) = 2" by simp
  from T two have "\<exists>s'. undoN 2 (pushAll [stA, stB, stC] (mount ''a'')) = Inr s' \<and>
      currentState s' = [stA, stB, stC] ! (length [stA, stB, stC] - 1 - 2) \<and>
      historyIndex s' = int (length [stA, stB, stC]) - 1 - int 2"
    by blast
  then have u: "\<exists>s'. undoN 2 (pushAll [stA, stB, stC] (mount ''a'')) = Inr s' \<and>
      currentState s' = stA \<and> historyIndex s' = 0"
    by simp
  have "historyIndex (openEditor (mount ''a'')) \<le> 0"
    and "int (length (history (openEditor (mount ''a'')))) - 1
           \<le> historyIndex (openEditor (mount ''a''))"
    by (simp_all add: openEditor_def)
  with T have r: "handleUndo (openEditor (mount ''a'')) = Inr (openEditor (mount ''a''))"
    "handleRedo (openEditor (mount ''a'')) = Inr (openEditor (mount ''a''))"
    by blast+
  show ?thesis using e i n u r by blast
qed

lemma redo_after_push: "handleRedo (pushState st s) = Inr (pushState st s)"
  by (simp add: handleRedo_def pushState_fields)

lemma undo_redo:
  assumes "0 < historyIndex s" and "historyIndex s < int (length (history s))"
  shows "\<exists>s1 s2. handleUndo s = Inr s1 \<and> handleRedo s1 = Inr s2 \<and>
           history s1 = history s \<and> historyIndex s1 = historyIndex s - 1 \<and>
           history s2 = history s \<and> historyIndex s2 = historyIndex s \<and>
           currentState s2 = history s ! nat (historyIndex s)"
  using assms by (simp add: handleUndo_def handleRedo_def index_def)

text \<open>
  C2. With the cursor inside the history, \<open>pushState\<close> keeps the entries up to and including
  the cursor, drops every later one, appends the new state and puts the cursor on it, the
  new tip, so that redo changes nothing afterwards. After an undo, a push therefore leaves
  none of the undone entries, and redo is without effect; a redo right after the undo
  brings back the history and the cursor, and shows the snapshot that was at the cursor,
  which is the state before the undo whenever that state was the committed one (it differs
  only while a freehand stroke is being drawn).
\<close>

theorem push_truncates_redo:
  assumes "0 \<le> historyIndex s" and "historyIndex s < int (length (history s))"
  shows "history (pushState st s) = take (nat (historyIndex s) + 1) (history s) @ [st] \<and>
         historyIndex (pushState st s) = historyIndex s + 1 \<and>
         historyIndex (pushState st s) = int (length (history (pushState st s))) - 1 \<and>
         currentState (pushState st s) = st \<and>
         handleRedo (pushState st s) = Inr (pushState st s) \<and>
         (0 < historyIndex s \<longrightarrow>
            (\<exists>s1 s2. handleUndo s = Inr s1 \<and>
               history (pushState st s1) = take (nat (historyIndex s)) (history s) @ [st] \<and>
               handleRedo (pushState st s1) = Inr (pushState st s1) \<and>
               handleRedo s1 = Inr s2 \<and> history s2 = history s \<and>
               historyIndex s2 = historyIndex s \<and>
               currentState s2 = history s ! nat (historyIndex s) \<and>
               (currentState s = history s ! nat (historyIndex s) \<longrightarrow>
                  currentState s2 = currentState s)))"
proof -
  have a: "history (pushState st s) = take (nat (historyIndex s) + 1) (history s) @ [st]"
    using assms by (simp add: pushState_fields slice0_def nat_add_distrib)
  have b: "historyIndex (pushState st s) = historyIndex s + 1"
    using assms by (simp add: pushState_fields slice0_def)
  have c: "\<exists>s1 s2. handleUndo s = Inr s1 \<and>
               history (pushState st s1) = take (nat (historyIndex s)) (history s) @ [st] \<and>
               handleRedo (pushState st s1) = Inr (pushState st s1) \<and>
               handleRedo s1 = Inr s2 \<and> history s2 = history s \<and>
               historyIndex s2 = historyIndex s \<and>
               currentState s2 = history s ! nat (historyIndex s) \<and>
               (currentState s = history s ! nat (historyIndex s) \<longrightarrow>
                  currentState s2 = currentState s)" if pos: "0 < historyIndex s"
  proof -
    from undo_redo [OF pos assms(2)] obtain s1 s2 where
      u: "handleUndo s = Inr s1" "handleRedo s1 = Inr s2" "history s1 = history s"
         "historyIndex s1 = historyIndex s - 1" "history s2 = history s"
         "historyIndex s2 = historyIndex s"
         "currentState s2 = history s ! nat (historyIndex s)"
      by blast
    have "history (pushState st s1) = take (nat (historyIndex s)) (history s) @ [st]"
      using u pos by (simp add: pushState_fields slice0_def)
    with u show ?thesis by (simp add: redo_after_push)
  qed
  show ?thesis
    using a b c by (simp add: pushState_fields redo_after_push)
qed

theorem push_truncates_redo_witness:
  "0 \<le> historyIndex threeDeep \<and> historyIndex threeDeep < int (length (history threeDeep)) \<and>
   0 < historyIndex threeDeep \<and>
   currentState threeDeep = history threeDeep ! nat (historyIndex threeDeep) \<and>
   history (pushState stA threeDeep) = [stA, stB, stC, stA] \<and>
   historyIndex (pushState stA threeDeep) = 3 \<and>
   (\<exists>s1 s2. handleUndo threeDeep = Inr s1 \<and>
      history (pushState stA s1) = [stA, stB, stA] \<and>
      handleRedo (pushState stA s1) = Inr (pushState stA s1) \<and>
      handleRedo s1 = Inr s2 \<and> history s2 = [stA, stB, stC] \<and> currentState s2 = stC)"
proof -
  have a: "0 \<le> historyIndex threeDeep"
    and b: "historyIndex threeDeep < int (length (history threeDeep))"
    and c: "0 < historyIndex threeDeep"
    and d: "currentState threeDeep = history threeDeep ! nat (historyIndex threeDeep)"
    by (simp_all add: threeDeep_fields)
  note T = push_truncates_redo [OF a b, of stA]
  from T have p: "history (pushState stA threeDeep) = [stA, stB, stC, stA]"
    "historyIndex (pushState stA threeDeep) = 3"
    by (simp_all add: threeDeep_fields)
  from T c obtain s1 s2 where
    u: "handleUndo threeDeep = Inr s1"
       "history (pushState stA s1) =
          take (nat (historyIndex threeDeep)) (history threeDeep) @ [stA]"
       "handleRedo (pushState stA s1) = Inr (pushState stA s1)"
       "handleRedo s1 = Inr s2" "history s2 = history threeDeep"
       "currentState s2 = history threeDeep ! nat (historyIndex threeDeep)"
    by blast
  have "history (pushState stA s1) = [stA, stB, stA]"
    "history s2 = [stA, stB, stC]" "currentState s2 = stC"
    using u by (simp_all add: threeDeep_fields)
  with u a b c d p show ?thesis by blast
qed

section \<open>Properties of the crop controller\<close>

lemma loaded_by_load:
  "nh \<noteq> 0 \<Longrightarrow> handleImageLoad nw nh (openEditor (mount ''a'')) = Inr (loaded nw nh)"
  by (simp add: loaded_def handleImageLoad_def openEditor_def mount_def baseline_def
      truthy_def index_def Let_def)

lemma loaded_reachable:
  "nh \<noteq> 0 \<Longrightarrow> run [Open, ImageLoad nw nh] (mount ''a'') = Inr (loaded nw nh)"
  by (simp add: loaded_by_load)





lemma Math_round_eqI:
  "of_int z \<le> v + 1 / 2 \<Longrightarrow> v + 1 / 2 < of_int z + 1 \<Longrightarrow> Math_round v = z"
  unfolding Math_round_def by (rule floor_unique)

lemma double_2000_1333: "toDouble (2000 / 1333) = 6757088713234053 / 4503599627370496"
  by code_simp









section \<open>Reset and the ratio lock\<close>

text \<open>
  C7 (as amended). Reset pushes the baseline state (rotation 0, filter none, no drawings,
  the original image reference) whatever the history was, shows the original image and
  returns the crop ratio to custom and the crop box to the empty box. It leaves the drag
  session, the drawing-in-progress flag and start point, and the active tool as they were.
\<close>

theorem reset_baseline:
  "currentState (handleReset s) = baseline (imageUrl s) \<and>
   rotation (currentState (handleReset s)) = 0 \<and>
   filterv (currentState (handleReset s)) = ''none'' \<and>
   drawings (currentState (handleReset s)) = [] \<and>
   imageSrc (currentState (handleReset s)) = Some (imageUrl s) \<and>
   history (handleReset s) = slice0 (history s) (historyIndex s + 1) @ [baseline (imageUrl s)] \<and>
   historyIndex (handleReset s) = int (length (history (handleReset s))) - 1 \<and>
   currentImage (handleReset s) = imageUrl s \<and>
   cropRatio (handleReset s) = Custom \<and>
   cropBox (handleReset s) = zeroBox \<and>
   dragSession (handleReset s) = dragSession s \<and>
   isCreatingCrop (handleReset s) = isCreatingCrop s \<and>
   isDrawing (handleReset s) = isDrawing s \<and>
   startPoint (handleReset s) = startPoint s \<and>
   activeTool (handleReset s) = activeTool s"
  by (simp add: handleReset_def pushState_def Let_def baseline_def)

lemma dragPending_reachable:
  "run [Open, ImageLoad 1000 1000, ToolButton ToolCrop,
        EditorMouseDown \<lparr>clientX = 100, clientY = 100\<rparr> (Some page1000) 0] (mount ''a'')
     = Inr dragPending"
proof -
  have "run [Open, ImageLoad 1000 1000] (mount ''a'') = Inr (loaded 1000 1000)"
    by (rule loaded_reachable) simp
  then have 1: "run [Open, ImageLoad 1000 1000, ToolButton ToolCrop,
        EditorMouseDown \<lparr>clientX = 100, clientY = 100\<rparr> (Some page1000) 0] (mount ''a'')
     = run [ToolButton ToolCrop,
        EditorMouseDown \<lparr>clientX = 100, clientY = 100\<rparr> (Some page1000) 0] (loaded 1000 1000)"
    by (simp split: sum.splits)
  show ?thesis
    unfolding 1
    by (simp add: dragPending_def toolButton_def handleEditorMouseDown_def percentAt_def
        page1000_def loaded_def openEditor_def mount_def Let_def)
qed

text \<open>
  C7 as stated fails: a drag session that is pending when reset is pressed is still
  pending afterwards.
\<close>

theorem reset_keeps_drag_session:
  "dragSession (handleReset dragPending) =
     Some \<lparr>kind = ''create'', startX = 100, startY = 100,
           startBox = \<lparr>leftp = 10, topp = 10, widthp = 0, heightp = 0\<rparr>\<rparr>"
  by (simp add: handleReset_def pushState_def dragPending_def Let_def)

text \<open>
  C10. With the ratio lock on, typing a string that parses as the integer \<open>n\<close> into the
  width field sets the height field to the decimal rendering of \<open>round (n / ratio)\<close>, and
  typing it into the height field sets the width field to that of \<open>round (n * ratio)\<close>,
  quotient and product being rounded to binary64 as JavaScript computes them; \<open>ratio\<close> is
  the state variable that \<open>handleImageLoad\<close> sets to the quotient of the natural dimensions.
\<close>

theorem ratio_lock:
  assumes "maintainRatio s" and "parseInt val = Some n"
  shows "(originalRatio s \<noteq> 0 \<longrightarrow>
            onResizeWidthChange val s =
              Inr (s\<lparr>resizeWidth := val,
                     resizeHeight :=
                       toString (Math_round (toDouble (of_int n / originalRatio s)))\<rparr>)) \<and>
         onResizeHeightChange val s =
           s\<lparr>resizeHeight := val,
             resizeWidth := toString (Math_round (toDouble (of_int n * originalRatio s)))\<rparr> \<and>
         (\<forall>s0 naturalW naturalH. handleImageLoad naturalW naturalH s0 = Inr s \<longrightarrow>
            originalRatio s = toDouble (of_nat naturalW / of_nat naturalH))"
  using assms
  by (auto simp add: onResizeWidthChange_def onResizeHeightChange_def handleImageLoad_def
      Let_def split: if_splits option.splits)

lemma parseInt_1000: "parseInt ''1000'' = Some 1000"
  by (simp add: parseInt_def isWhiteSpace_def isRadixDigit_def digitValue_def digitsValue_def
      Let_def)

theorem ratio_lock_witness:
  "maintainRatio (loaded 2000 1333) \<and> parseInt ''1000'' = Some 1000 \<and>
   originalRatio (loaded 2000 1333) = 6757088713234053 / 4503599627370496 \<and>
   handleImageLoad 2000 1333 (openEditor (mount ''a'')) = Inr (loaded 2000 1333) \<and>
   onResizeWidthChange ''1000'' (loaded 2000 1333) =
     Inr ((loaded 2000 1333)\<lparr>resizeWidth := ''1000'', resizeHeight := ''667''\<rparr>) \<and>
   onResizeHeightChange ''1000'' (loaded 2000 1333) =
     (loaded 2000 1333)\<lparr>resizeHeight := ''1000'', resizeWidth := ''1500''\<rparr>"
proof -
  have m: "maintainRatio (loaded 2000 1333)"
    and o: "originalRatio (loaded 2000 1333) = 6757088713234053 / 4503599627370496"
    by (simp_all add: loaded_def openEditor_def mount_def Let_def double_2000_1333)
  have l: "handleImageLoad 2000 1333 (openEditor (mount ''a'')) = Inr (loaded 2000 1333)"
    by (rule loaded_by_load) simp
  have "toDouble (of_int 1000 / (6757088713234053 / 4503599627370496)) = 1333 / 2"
    by code_simp
  moreover have "Math_round (1333 / 2) = 667"
    by (rule Math_round_eqI) simp_all
  moreover have "toString 667 = ''667''"
    by (simp add: toString_def digits.simps digitChar_def)
  ultimately
  have r1: "toString (Math_round (toDouble (of_int 1000 / originalRatio (loaded 2000 1333))))
              = ''667''"
    by (simp only: o)
  have "toDouble (of_int 1000 * (6757088713234053 / 4503599627370496))
          = 3299359723258815 / 2199023255552"
    by code_simp
  moreover have "Math_round (3299359723258815 / 2199023255552) = 1500"
    by (rule Math_round_eqI) simp_all
  moreover have "toString 1500 = ''1500''"
    by (simp add: toString_def digits.simps digitChar_def)
  ultimately
  have r2: "toString (Math_round (toDouble (of_int 1000 * originalRatio (loaded 2000 1333))))
              = ''1500''"
    by (simp only: o)
  note T = ratio_lock [OF m parseInt_1000]
  have nz: "originalRatio (loaded 2000 1333) \<noteq> 0" by (simp add: o)
  from T nz have "onResizeWidthChange ''1000'' (loaded 2000 1333) =
     Inr ((loaded 2000 1333)\<lparr>resizeWidth := ''1000'',
            resizeHeight :=
              toString (Math_round (toDouble (of_int 1000 / originalRatio (loaded 2000 1333))))\<rparr>)"
    by blast
  then have w: "onResizeWidthChange ''1000'' (loaded 2000 1333) =
     Inr ((loaded 2000 1333)\<lparr>resizeWidth := ''1000'', resizeHeight := ''667''\<rparr>)"
    by (simp only: r1)
  from T have "onResizeHeightChange ''1000'' (loaded 2000 1333) =
     (loaded 2000 1333)\<lparr>resizeHeight := ''1000'',
        resizeWidth :=
          toString (Math_round (toDouble (of_int 1000 * originalRatio (loaded 2000 1333))))\<rparr>"
    by blast
  then have h: "onResizeHeightChange ''1000'' (loaded 2000 1333) =
     (loaded 2000 1333)\<lparr>resizeHeight := ''1000'', resizeWidth := ''1500''\<rparr>"
    by (simp only: r2)
  show ?thesis using m parseInt_1000 o l w h by blast
qed


section \<open>Properties of the draw controller\<close>

lemma run_append:
  "run (evs @ evs') s = (case run evs s of Inl err \<Rightarrow> Inl err | Inr s' \<Rightarrow> run evs' s')"
  by (induction evs arbitrary: s) (simp_all split: sum.splits)

lemma extendLast_free:
  "extendLast (ds @ [FreeStroke c n ps]) p = Inr (ds @ [FreeStroke c n (ps @ [p])])"
  by (simp add: extendLast_def index_def nth_append)

lemma moves_free:
  assumes "isDrawing s" "activeTool s = ToolDraw" "drawMode s = DrawFree"
    and "rwidth (crect cv) \<noteq> 0" "rheight (crect cv) \<noteq> 0"
    and "drawings (currentState s) = ds @ [FreeStroke c n ps]"
  shows "run (map (\<lambda>e. CanvasMouseMove e (Some cv)) moves) s =
           Inr (s\<lparr>currentState := (currentState s)
                   \<lparr>drawings := ds @ [FreeStroke c n (ps @ map (\<lambda>e. canvasPoint e cv) moves)]\<rparr>\<rparr>)"
  using assms
proof (induction moves arbitrary: s ps)
  case Nil
  then show ?case by simp
next
  case (Cons e moves)
  let ?s1 = "s\<lparr>currentState := (currentState s)
                 \<lparr>drawings := ds @ [FreeStroke c n (ps @ [canvasPoint e cv])]\<rparr>\<rparr>"
  have st: "handleCanvasMouseMove e (Some cv) s = Inr ?s1"
    using Cons.prems by (simp add: handleCanvasMouseMove_def extendLast_free)
  have "run (map (\<lambda>e. CanvasMouseMove e (Some cv)) moves) ?s1 =
          Inr (?s1\<lparr>currentState := (currentState ?s1)
                 \<lparr>drawings := ds @ [FreeStroke c n ((ps @ [canvasPoint e cv])
                                       @ map (\<lambda>e. canvasPoint e cv) moves)]\<rparr>\<rparr>)"
    by (rule Cons.IH) (use Cons.prems in simp_all)
  then show ?case using st by simp
qed

lemma moves_line:
  assumes "drawMode s = DrawLine" and "rwidth (crect cv) \<noteq> 0" and "rheight (crect cv) \<noteq> 0"
  shows "run (map (\<lambda>e. CanvasMouseMove e (Some cv)) moves) s = Inr s"
  using assms
  by (induction moves) (simp_all add: handleCanvasMouseMove_def)

text \<open>
  C5. With the draw tool active: in freehand mode, pointer-down followed by any number of
  pointer-moves leaves the history and the cursor as they were and the live drawings
  extended by one freehand stroke holding the point of the pointer-down and one point for
  each move, in order; pointer-up then performs exactly one push, of that state. In line
  mode, pointer-down and the moves change neither the drawings nor the history, and
  pointer-up pushes once the state extended by one line stroke from the point of the
  pointer-down to the point of the pointer-up.
\<close>

theorem stroke_capture:
  assumes "activeTool s = ToolDraw" and "rwidth (crect cv) \<noteq> 0" and "rheight (crect cv) \<noteq> 0"
  shows "(drawMode s = DrawFree \<longrightarrow>
            run (dragStart e0 moves cv) s =
              Inr (s\<lparr>isDrawing := True, startPoint := Some (canvasPoint e0 cv),
                     currentState := (currentState s)\<lparr>drawings := drawings (currentState s) @
                       [FreeStroke (drawColor s) (brushSize s)
                          (canvasPoint e0 cv # map (\<lambda>e. canvasPoint e cv) moves)]\<rparr>\<rparr>) \<and>
            run (drag e0 moves eu cv) s =
              Inr ((pushState ((currentState s)\<lparr>drawings := drawings (currentState s) @
                       [FreeStroke (drawColor s) (brushSize s)
                          (canvasPoint e0 cv # map (\<lambda>e. canvasPoint e cv) moves)]\<rparr>) s)
                   \<lparr>isDrawing := False, startPoint := None\<rparr>)) \<and>
         (drawMode s = DrawLine \<longrightarrow>
            run (dragStart e0 moves cv) s =
              Inr (s\<lparr>isDrawing := True, startPoint := Some (canvasPoint e0 cv)\<rparr>) \<and>
            run (drag e0 moves eu cv) s =
              Inr ((pushState ((currentState s)\<lparr>drawings := drawings (currentState s) @
                       [LineStroke (drawColor s) (brushSize s)
                          (canvasPoint e0 cv) (canvasPoint eu cv)]\<rparr>) s)
                   \<lparr>isDrawing := False, startPoint := None\<rparr>))"
proof (intro conjI impI)
  assume free: "drawMode s = DrawFree"
  let ?p = "canvasPoint e0 cv"
  let ?s1 = "s\<lparr>isDrawing := True, startPoint := Some ?p,
               currentState := (currentState s)\<lparr>drawings := drawings (currentState s) @
                 [FreeStroke (drawColor s) (brushSize s) [?p]]\<rparr>\<rparr>"
  have down: "handleCanvasMouseDown e0 (Some cv) s = Inr ?s1"
    using assms free by (simp add: handleCanvasMouseDown_def Let_def)
  have mv: "run (map (\<lambda>e. CanvasMouseMove e (Some cv)) moves) ?s1 =
          Inr (?s1\<lparr>currentState := (currentState ?s1)
                 \<lparr>drawings := drawings (currentState s) @
                    [FreeStroke (drawColor s) (brushSize s)
                       ([?p] @ map (\<lambda>e. canvasPoint e cv) moves)]\<rparr>\<rparr>)"
    by (rule moves_free) (use assms free in simp_all)
  show start: "run (dragStart e0 moves cv) s =
              Inr (s\<lparr>isDrawing := True, startPoint := Some (canvasPoint e0 cv),
                     currentState := (currentState s)\<lparr>drawings := drawings (currentState s) @
                       [FreeStroke (drawColor s) (brushSize s)
                          (canvasPoint e0 cv # map (\<lambda>e. canvasPoint e cv) moves)]\<rparr>\<rparr>)"
    using down mv by (simp add: dragStart_def)
  show "run (drag e0 moves eu cv) s =
              Inr ((pushState ((currentState s)\<lparr>drawings := drawings (currentState s) @
                       [FreeStroke (drawColor s) (brushSize s)
                          (canvasPoint e0 cv # map (\<lambda>e. canvasPoint e cv) moves)]\<rparr>) s)
                   \<lparr>isDrawing := False, startPoint := None\<rparr>)"
    unfolding drag_def run_append start
    using assms free
    by (simp add: handleCanvasMouseUp_def pushState_def Let_def)
next
  assume line: "drawMode s = DrawLine"
  let ?p = "canvasPoint e0 cv"
  let ?s1 = "s\<lparr>isDrawing := True, startPoint := Some ?p\<rparr>"
  have down: "handleCanvasMouseDown e0 (Some cv) s = Inr ?s1"
    using assms line by (simp add: handleCanvasMouseDown_def Let_def)
  have mv: "run (map (\<lambda>e. CanvasMouseMove e (Some cv)) moves) ?s1 = Inr ?s1"
    by (rule moves_line) (use assms line in simp_all)
  show start: "run (dragStart e0 moves cv) s =
              Inr (s\<lparr>isDrawing := True, startPoint := Some (canvasPoint e0 cv)\<rparr>)"
    using down mv by (simp add: dragStart_def)
  show "run (drag e0 moves eu cv) s =
              Inr ((pushState ((currentState s)\<lparr>drawings := drawings (currentState s) @
                       [LineStroke (drawColor s) (brushSize s)
                          (canvasPoint e0 cv) (canvasPoint eu cv)]\<rparr>) s)
                   \<lparr>isDrawing := False, startPoint := None\<rparr>)"
    unfolding drag_def run_append start
    using assms line
    by (simp add: handleCanvasMouseUp_def pushState_def Let_def)
qed

theorem stroke_capture_witness:
  "activeTool (drawScene DrawFree) = ToolDraw \<and> drawMode (drawScene DrawFree) = DrawFree \<and>
   activeTool (drawScene DrawLine) = ToolDraw \<and> drawMode (drawScene DrawLine) = DrawLine \<and>
   rwidth (crect canvas1200) \<noteq> 0 \<and> rheight (crect canvas1200) \<noteq> 0 \<and>
   run (drag (pointer 10 10) [pointer 20 10, pointer 20 20] (pointer 20 20) canvas1200) (drawScene DrawFree) =
     Inr ((pushState ((currentState (loaded 1200 800))\<lparr>drawings :=
             [FreeStroke ''#00a9ff'' 12 [(10, 10), (20, 10), (20, 20)]]\<rparr>) (drawScene DrawFree))
          \<lparr>isDrawing := False, startPoint := None\<rparr>) \<and>
   run (drag (pointer 10 10) [pointer 20 10, pointer 20 20] (pointer 20 20) canvas1200) (drawScene DrawLine) =
     Inr ((pushState ((currentState (loaded 1200 800))\<lparr>drawings :=
             [LineStroke ''#00a9ff'' 12 (10, 10) (20, 20)]\<rparr>) (drawScene DrawLine))
          \<lparr>isDrawing := False, startPoint := None\<rparr>)"
proof -
  have f: "activeTool (drawScene DrawFree) = ToolDraw" "drawMode (drawScene DrawFree) = DrawFree"
    and l: "activeTool (drawScene DrawLine) = ToolDraw" "drawMode (drawScene DrawLine) = DrawLine"
    and r: "rwidth (crect canvas1200) \<noteq> 0" "rheight (crect canvas1200) \<noteq> 0"
    by (simp_all add: drawScene_def canvas1200_def)
  have pts: "canvasPoint (pointer 10 10) canvas1200 = (10, 10)"
    "canvasPoint (pointer 20 10) canvas1200 = (20, 10)"
    "canvasPoint (pointer 20 20) canvas1200 = (20, 20)"
    by (simp_all add: canvasPoint_def canvas1200_def pointer_def Let_def)
  have cs: "currentState (drawScene m) = currentState (loaded 1200 800)"
    "drawings (currentState (loaded 1200 800)) = []"
    "drawColor (drawScene m) = ''#00a9ff''" "brushSize (drawScene m) = 12" for m
    by (simp_all add: drawScene_def loaded_def openEditor_def mount_def baseline_def Let_def)
  note F = stroke_capture [OF f(1) r, of "pointer 10 10" "[pointer 20 10, pointer 20 20]" "pointer 20 20"]
  note L = stroke_capture [OF l(1) r, of "pointer 10 10" "[pointer 20 10, pointer 20 20]" "pointer 20 20"]
  from F f(2) have a: "run (drag (pointer 10 10) [pointer 20 10, pointer 20 20] (pointer 20 20) canvas1200)
       (drawScene DrawFree) =
     Inr ((pushState ((currentState (loaded 1200 800))\<lparr>drawings :=
             [FreeStroke ''#00a9ff'' 12 [(10, 10), (20, 10), (20, 20)]]\<rparr>) (drawScene DrawFree))
          \<lparr>isDrawing := False, startPoint := None\<rparr>)"
    by (simp add: pts cs)
  from L l(2) have b: "run (drag (pointer 10 10) [pointer 20 10, pointer 20 20] (pointer 20 20) canvas1200)
       (drawScene DrawLine) =
     Inr ((pushState ((currentState (loaded 1200 800))\<lparr>drawings :=
             [LineStroke ''#00a9ff'' 12 (10, 10) (20, 20)]\<rparr>) (drawScene DrawLine))
          \<lparr>isDrawing := False, startPoint := None\<rparr>)"
    by (simp add: pts cs)
  show ?thesis using f l r a b by blast
qed

lemma stroke_capture_example:
  "drawings (currentState ((pushState ((currentState (loaded 1200 800))\<lparr>drawings :=
      [FreeStroke ''#00a9ff'' 12 [(10, 10), (20, 10), (20, 20)]]\<rparr>) (drawScene DrawFree))
      \<lparr>isDrawing := False, startPoint := None\<rparr>))
     = [FreeStroke ''#00a9ff'' 12 [(10, 10), (20, 10), (20, 20)]]"
  "length (history ((pushState ((currentState (loaded 1200 800))\<lparr>drawings :=
      [FreeStroke ''#00a9ff'' 12 [(10, 10), (20, 10), (20, 20)]]\<rparr>) (drawScene DrawFree))
      \<lparr>isDrawing := False, startPoint := None\<rparr>)) = 2"
  by (simp_all add: pushState_def slice0_def drawScene_def loaded_def openEditor_def Let_def)


section \<open>Properties of the text controller\<close>

lemma toString_0: "toString 0 = ''0''"
  by (simp add: toString_def digits.simps digitChar_def)

lemma textScene_reachable:
  "run [Open, ImageLoad 1000 1000, ToolButton ToolText,
        EditorMouseDown (pointer 500 250) (Some page1000) 0,
        TextChange (typed []) t] (mount ''a'') = Inr (textScene t)"
proof -
  have "run [Open, ImageLoad 1000 1000] (mount ''a'') = Inr (loaded 1000 1000)"
    by (rule loaded_reachable) simp
  then have 1: "run [Open, ImageLoad 1000 1000, ToolButton ToolText,
        EditorMouseDown (pointer 500 250) (Some page1000) 0,
        TextChange (typed []) t] (mount ''a'')
     = run [ToolButton ToolText, EditorMouseDown (pointer 500 250) (Some page1000) 0,
        TextChange (typed []) t] (loaded 1000 1000)"
    by (simp split: sum.splits)
  show ?thesis
    unfolding 1
    by (simp add: textScene_def typed_def toolButton_def handleEditorMouseDown_def percentAt_def
        page1000_def pointer_def onTextChange_def toString_0 loaded_def openEditor_def
        mount_def Let_def)
qed






section \<open>How the history changes\<close>

lemma pushed_pushState: "pushed s (pushState st s)"
  by (simp add: pushed_def pushState_fields)

lemma pushed_update:
  "history s2 = history s1 \<Longrightarrow> historyIndex s2 = historyIndex s1 \<Longrightarrow>
   currentState s2 = currentState s1 \<Longrightarrow> pushed s s1 \<Longrightarrow> pushed s s2"
  by (simp add: pushed_def)






















section \<open>Dimensions of the snapshots\<close>

















lemma positiveDims_drawings [simp]: "positiveDims (st\<lparr>drawings := ds\<rparr>) = positiveDims st"
  by (simp add: positiveDims_def)















section \<open>Well-formed states\<close>

text \<open>
  In every state that the editor reaches after it was opened, the cursor points into the
  history, and the current state is the snapshot at the cursor unless a drag on the canvas
  is in progress. Undo and redo therefore never read outside the history, image load never
  writes outside it, and an undo followed by a redo brings back the current state.
\<close>

lemma wellFormed_same: "wellFormed s \<Longrightarrow> sameCore s s' \<Longrightarrow> wellFormed s'"
  by (simp add: wellFormed_def sameCore_def)

lemma wellFormed_push:
  assumes "wellFormed s" and "history s' = history (pushState st s)"
    and "historyIndex s' = historyIndex (pushState st s)" and "currentState s' = st"
    and "isDrawing s' \<longleftrightarrow> startPoint s' \<noteq> None"
  shows "wellFormed s'"
  using assms by (simp add: wellFormed_def pushState_fields)

lemma wellFormed_outcome:
  assumes w: "wellFormed s"
    and o: "sameCore s s' \<or>
       ((\<exists>st. history s' = history (pushState st s) \<and>
              historyIndex s' = historyIndex (pushState st s) \<and> currentState s' = st) \<and>
        (isDrawing s' \<longleftrightarrow> startPoint s' \<noteq> None))"
  shows "wellFormed s'"
  using o
proof
  assume "sameCore s s'"
  with w show ?thesis by (rule wellFormed_same)
next
  assume "(\<exists>st. history s' = history (pushState st s) \<and>
              historyIndex s' = historyIndex (pushState st s) \<and> currentState s' = st) \<and>
        (isDrawing s' \<longleftrightarrow> startPoint s' \<noteq> None)"
  then obtain st where "history s' = history (pushState st s)"
    "historyIndex s' = historyIndex (pushState st s)" "currentState s' = st"
    "isDrawing s' \<longleftrightarrow> startPoint s' \<noteq> None"
    by blast
  with w show ?thesis by (rule wellFormed_push)
qed

lemma wellFormed_flags: "wellFormed s \<Longrightarrow> (isDrawing s \<longleftrightarrow> startPoint s \<noteq> None)"
  by (simp add: wellFormed_def)

lemma wellFormed_kept:
  assumes w: "wellFormed s"
    and o: "sameCore s s' \<or>
       ((\<exists>st. history s' = history (pushState st s) \<and>
              historyIndex s' = historyIndex (pushState st s) \<and> currentState s' = st) \<and>
        isDrawing s' = isDrawing s \<and> startPoint s' = startPoint s)"
  shows "wellFormed s'"
proof (rule wellFormed_outcome [OF w])
  from o show "sameCore s s' \<or>
       ((\<exists>st. history s' = history (pushState st s) \<and>
              historyIndex s' = historyIndex (pushState st s) \<and> currentState s' = st) \<and>
        (isDrawing s' \<longleftrightarrow> startPoint s' \<noteq> None))"
  proof
    assume "sameCore s s'"
    then show ?thesis by (rule disjI1)
  next
    assume p: "(\<exists>st. history s' = history (pushState st s) \<and>
              historyIndex s' = historyIndex (pushState st s) \<and> currentState s' = st) \<and>
        isDrawing s' = isDrawing s \<and> startPoint s' = startPoint s"
    then have "isDrawing s' \<longleftrightarrow> startPoint s' \<noteq> None"
      using wellFormed_flags [OF w] by simp
    with p show ?thesis by blast
  qed
qed

lemma showSnapshot_flags [simp]:
  "isDrawing (showSnapshot st s) = isDrawing s"
  "startPoint (showSnapshot st s) = startPoint s"
  by (simp_all add: showSnapshot_def Let_def split: option.splits)

lemma sameCore_refl: "sameCore s s"
  by (simp add: sameCore_def)

lemma open_wellFormed:
  "(isDrawing s \<longleftrightarrow> startPoint s \<noteq> None) \<Longrightarrow> wellFormed (openEditor s)"
  by (simp add: wellFormed_def openEditor_def)

lemma undo_cases:
  "handleUndo s = Inr s' \<Longrightarrow>
   s' = s \<or>
   (0 < historyIndex s \<and> historyIndex s - 1 < int (length (history s)) \<and>
    historyIndex s' = historyIndex s - 1 \<and> history s' = history s \<and>
    currentState s' = history s ! nat (historyIndex s - 1) \<and>
    isDrawing s' = isDrawing s \<and> startPoint s' = startPoint s)"
  by (auto simp add: handleUndo_def index_def split: if_splits option.splits)

lemma undo_wellFormed:
  assumes "wellFormed s" and "handleUndo s = Inr s'"
  shows "wellFormed s'"
  using undo_cases [OF assms(2)]
proof
  assume "s' = s"
  then show ?thesis using assms(1) by simp
next
  assume "0 < historyIndex s \<and> historyIndex s - 1 < int (length (history s)) \<and>
    historyIndex s' = historyIndex s - 1 \<and> history s' = history s \<and>
    currentState s' = history s ! nat (historyIndex s - 1) \<and>
    isDrawing s' = isDrawing s \<and> startPoint s' = startPoint s"
  then show ?thesis using assms(1) by (simp add: wellFormed_def)
qed

lemma redo_cases:
  "handleRedo s = Inr s' \<Longrightarrow>
   s' = s \<or>
   (0 \<le> historyIndex s + 1 \<and> historyIndex s + 1 < int (length (history s)) \<and>
    historyIndex s' = historyIndex s + 1 \<and> history s' = history s \<and>
    currentState s' = history s ! nat (historyIndex s + 1) \<and>
    isDrawing s' = isDrawing s \<and> startPoint s' = startPoint s)"
  by (auto simp add: handleRedo_def index_def split: if_splits option.splits)

lemma redo_wellFormed:
  assumes "wellFormed s" and "handleRedo s = Inr s'"
  shows "wellFormed s'"
  using redo_cases [OF assms(2)]
proof
  assume "s' = s"
  then show ?thesis using assms(1) by simp
next
  assume "0 \<le> historyIndex s + 1 \<and> historyIndex s + 1 < int (length (history s)) \<and>
    historyIndex s' = historyIndex s + 1 \<and> history s' = history s \<and>
    currentState s' = history s ! nat (historyIndex s + 1) \<and>
    isDrawing s' = isDrawing s \<and> startPoint s' = startPoint s"
  then show ?thesis using assms(1) by (simp add: wellFormed_def)
qed

lemma reset_wellFormed: "wellFormed s \<Longrightarrow> wellFormed (handleReset s)"
  by (rule wellFormed_push [where st = "baseline (imageUrl s)"])
     (simp_all add: handleReset_def wellFormed_def pushState_def Let_def)

lemma toolButton_cases:
  "sameCore s (toolButton t s) \<or>
   ((\<exists>st. history (toolButton t s) = history (pushState st s) \<and>
          historyIndex (toolButton t s) = historyIndex (pushState st s) \<and>
          currentState (toolButton t s) = st) \<and>
    isDrawing (toolButton t s) = isDrawing s \<and>
    startPoint (toolButton t s) = startPoint s)"
  by (cases t)
     (simp_all add: toolButton_def handleFilter_def handleRotate_def sameCore_def
        pushState_def Let_def)

lemma toolButton_wellFormed: "wellFormed s \<Longrightarrow> wellFormed (toolButton t s)"
  using toolButton_cases [of s t] by (rule wellFormed_kept [rotated])

lemma imageLoad_cases:
  "handleImageLoad nw nh s = Inr s' \<Longrightarrow>
   sameCore s s' \<or>
   (historyIndex s' = historyIndex s \<and> isDrawing s' = isDrawing s \<and>
    startPoint s' = startPoint s \<and>
    currentState s' = (currentState s)\<lparr>width := Some (int nw), height := Some (int nh)\<rparr> \<and>
    (history s = [] \<and> history s' = [] \<or>
     nat (max (historyIndex s) 0) < length (history s) \<and>
     history s' = (history s)[nat (max (historyIndex s) 0) :=
        (history s ! nat (max (historyIndex s) 0))
          \<lparr>width := Some (int nw), height := Some (int nh)\<rparr>]))"
  by (auto simp add: handleImageLoad_def index_def sameCore_def Let_def max_def
      split: if_splits option.splits)

lemma imageLoad_wellFormed:
  assumes "wellFormed s" and "handleImageLoad nw nh s = Inr s'"
  shows "wellFormed s'"
  using imageLoad_cases [OF assms(2)]
proof
  assume "sameCore s s'"
  with assms(1) show ?thesis by (rule wellFormed_same)
next
  assume "historyIndex s' = historyIndex s \<and> isDrawing s' = isDrawing s \<and>
    startPoint s' = startPoint s \<and>
    currentState s' = (currentState s)\<lparr>width := Some (int nw), height := Some (int nh)\<rparr> \<and>
    (history s = [] \<and> history s' = [] \<or>
     nat (max (historyIndex s) 0) < length (history s) \<and>
     history s' = (history s)[nat (max (historyIndex s) 0) :=
        (history s ! nat (max (historyIndex s) 0))
          \<lparr>width := Some (int nw), height := Some (int nh)\<rparr>])"
  then show ?thesis using assms(1) by (auto simp add: wellFormed_def max_def)
qed

lemma resizeWidth_same: "onResizeWidthChange val s = Inr s' \<Longrightarrow> sameCore s s'"
  by (auto simp add: onResizeWidthChange_def sameCore_def Let_def split: if_splits option.splits)

lemma resizeHeight_same: "sameCore s (onResizeHeightChange val s)"
  by (simp add: onResizeHeightChange_def sameCore_def Let_def split: option.splits)

lemma resizeApply_cases:
  "sameCore s (handleResizeApply s) \<or>
   ((\<exists>st. history (handleResizeApply s) = history (pushState st s) \<and>
          historyIndex (handleResizeApply s) = historyIndex (pushState st s) \<and>
          currentState (handleResizeApply s) = st) \<and>
    isDrawing (handleResizeApply s) = isDrawing s \<and>
    startPoint (handleResizeApply s) = startPoint s)"
  by (simp add: handleResizeApply_def sameCore_def pushState_def Let_def split: option.splits)

lemma resizeApply_wellFormed: "wellFormed s \<Longrightarrow> wellFormed (handleResizeApply s)"
  using resizeApply_cases [of s] by (rule wellFormed_kept [rotated])

lemma cropApply_cases:
  "handleCropApply env s = Inr s' \<Longrightarrow>
   sameCore s s' \<or>
   ((\<exists>st. history s' = history (pushState st s) \<and>
          historyIndex s' = historyIndex (pushState st s) \<and> currentState s' = st) \<and>
    isDrawing s' = isDrawing s \<and> startPoint s' = startPoint s)"
  by (auto simp add: handleCropApply_def sameCore_def pushState_def Let_def
      split: if_splits option.splits prod.splits)

lemma cropApply_wellFormed:
  "wellFormed s \<Longrightarrow> handleCropApply env s = Inr s' \<Longrightarrow> wellFormed s'"
  using cropApply_cases [of env s s'] wellFormed_kept [of s s'] by blast

lemma editorMouse_same:
  "handleEditorMouseDown e container now s = Inr s' \<Longrightarrow> sameCore s s'"
  "handleEditorMouseMove e container s = Inr s' \<Longrightarrow> sameCore s s'"
  "sameCore s (handleEditorMouseUp s)"
  "sameCore s (handleCropBoxMouseDown e type s)"
  "sameCore s (cancelCrop s)"
  by (auto simp add: handleEditorMouseDown_def handleEditorMouseMove_def handleEditorMouseUp_def
      handleCropBoxMouseDown_def cancelCrop_def sameCore_def Let_def
      split: if_splits option.splits prod.splits)

lemma canvasDown_core:
  "handleCanvasMouseDown e canvasRef s = Inr s' \<Longrightarrow>
   sameCore s s' \<or>
   (history s' = history s \<and> historyIndex s' = historyIndex s \<and> isDrawing s' \<and>
    startPoint s' \<noteq> None)"
  by (auto simp add: handleCanvasMouseDown_def sameCore_def Let_def
      split: if_splits option.splits)

lemma canvasDown_wellFormed:
  assumes "wellFormed s" and "handleCanvasMouseDown e canvasRef s = Inr s'"
  shows "wellFormed s'"
  using canvasDown_core [OF assms(2)]
proof
  assume "sameCore s s'"
  with assms(1) show ?thesis by (rule wellFormed_same)
next
  assume "history s' = history s \<and> historyIndex s' = historyIndex s \<and> isDrawing s' \<and>
    startPoint s' \<noteq> None"
  then show ?thesis using assms(1) by (simp add: wellFormed_def)
qed

lemma canvasMove_core:
  "handleCanvasMouseMove e canvasRef s = Inr s' \<Longrightarrow>
   sameCore s s' \<or>
   (history s' = history s \<and> historyIndex s' = historyIndex s \<and> isDrawing s \<and>
    isDrawing s' \<and> startPoint s' = startPoint s)"
  by (auto simp add: handleCanvasMouseMove_def sameCore_def Let_def
      split: if_splits option.splits sum.splits)

lemma canvasMove_wellFormed:
  assumes "wellFormed s" and "handleCanvasMouseMove e canvasRef s = Inr s'"
  shows "wellFormed s'"
  using canvasMove_core [OF assms(2)]
proof
  assume "sameCore s s'"
  with assms(1) show ?thesis by (rule wellFormed_same)
next
  assume "history s' = history s \<and> historyIndex s' = historyIndex s \<and> isDrawing s \<and>
    isDrawing s' \<and> startPoint s' = startPoint s"
  then show ?thesis using assms(1) by (simp add: wellFormed_def)
qed

lemma canvasUp_core:
  "handleCanvasMouseUp e canvasRef s = Inr s' \<Longrightarrow>
   sameCore s s' \<or>
   ((\<exists>st. history s' = history (pushState st s) \<and>
          historyIndex s' = historyIndex (pushState st s) \<and> currentState s' = st) \<and>
    \<not> isDrawing s' \<and> startPoint s' = None) \<or>
   (isDrawing s \<and> startPoint s = None)"
  by (cases "drawMode s")
     (auto simp add: handleCanvasMouseUp_def sameCore_def pushState_def Let_def
        split: if_splits option.splits)

lemma canvasUp_wellFormed:
  assumes "wellFormed s" and "handleCanvasMouseUp e canvasRef s = Inr s'"
  shows "wellFormed s'"
  using canvasUp_core [OF assms(2)]
proof (elim disjE)
  assume "sameCore s s'"
  with assms(1) show ?thesis by (rule wellFormed_same)
next
  assume p: "(\<exists>st. history s' = history (pushState st s) \<and>
          historyIndex s' = historyIndex (pushState st s) \<and> currentState s' = st) \<and>
    \<not> isDrawing s' \<and> startPoint s' = None"
  show ?thesis
    by (rule wellFormed_outcome [OF assms(1)]) (use p in simp)
next
  assume "isDrawing s \<and> startPoint s = None"
  then show ?thesis using wellFormed_flags [OF assms(1)] by blast
qed

lemma text_same:
  "sameCore s (onTextChange textObj val s)"
  "sameCore s (onTextBlur textObj s)"
  "sameCore s (onTextKeyDown textObj key s)"
  "sameCore s (onTextClick textObj s)"
  "sameCore s (removeText textObj s)"
  by (simp_all add: onTextChange_def onTextBlur_def onTextKeyDown_def onTextClick_def
      removeText_def sameCore_def Let_def split: Key.splits)

lemma step_wellFormed:
  assumes "wellFormed s" and "step ev s = Inr s'"
  shows "wellFormed s'"
proof (cases ev)
  case Open
  then show ?thesis using assms open_wellFormed [of s] by (auto simp add: wellFormed_def)
next
  case (ImageLoad nw nh)
  then show ?thesis using assms imageLoad_wellFormed [of s nw nh s'] by simp
next
  case Undo
  then show ?thesis using assms undo_wellFormed [of s s'] by simp
next
  case Redo
  then show ?thesis using assms redo_wellFormed [of s s'] by simp
next
  case Reset
  then show ?thesis using assms reset_wellFormed [of s] by auto
next
  case (ToolButton t)
  then show ?thesis using assms toolButton_wellFormed [of s t] by auto
next
  case (ResizeWidthChange val)
  then show ?thesis using assms wellFormed_same resizeWidth_same [of val s s'] by auto
next
  case (ResizeHeightChange val)
  then show ?thesis using assms wellFormed_same resizeHeight_same [of s val] by auto
next
  case ResizeApply
  then show ?thesis using assms resizeApply_wellFormed [of s] by auto
next
  case (CropApply env)
  then show ?thesis using assms cropApply_wellFormed [of s env s'] by simp
next
  case CropCancel
  then show ?thesis using assms wellFormed_same editorMouse_same(5) [of s] by auto
next
  case (CropBoxMouseDown e type)
  then show ?thesis using assms wellFormed_same editorMouse_same(4) [of s e type] by auto
next
  case (EditorMouseDown e container now)
  then show ?thesis
    using assms wellFormed_same editorMouse_same(1) [of e container now s s'] by auto
next
  case (EditorMouseMove e container)
  then show ?thesis
    using assms wellFormed_same editorMouse_same(2) [of e container s s'] by auto
next
  case EditorMouseUp
  then show ?thesis using assms wellFormed_same editorMouse_same(3) [of s] by auto
next
  case (CanvasMouseDown e canvasRef)
  then show ?thesis using assms canvasDown_wellFormed [of s e canvasRef s'] by simp
next
  case (CanvasMouseMove e canvasRef)
  then show ?thesis using assms canvasMove_wellFormed [of s e canvasRef s'] by simp
next
  case (CanvasMouseUp e canvasRef)
  then show ?thesis using assms canvasUp_wellFormed [of s e canvasRef s'] by simp
next
  case (TextChange textObj val)
  then show ?thesis using assms wellFormed_same text_same(1) [of s textObj val] by auto
next
  case (TextBlur textObj)
  then show ?thesis using assms wellFormed_same text_same(2) [of s textObj] by auto
next
  case (TextKeyDown textObj key)
  then show ?thesis using assms wellFormed_same text_same(3) [of s textObj key] by auto
next
  case (TextClick textObj)
  then show ?thesis using assms wellFormed_same text_same(4) [of s textObj] by auto
next
  case (TextDelete textObj)
  then show ?thesis using assms wellFormed_same text_same(5) [of s textObj] by auto
qed (use assms in \<open>auto simp add: wellFormed_def\<close>)

lemma run_wellFormed: "wellFormed s \<Longrightarrow> run evs s = Inr s' \<Longrightarrow> wellFormed s'"
proof (induction evs arbitrary: s)
  case Nil
  then show ?case by simp
next
  case (Cons ev evs)
  from Cons.prems(2) obtain s1 where s1: "step ev s = Inr s1" "run evs s1 = Inr s'"
    by (auto split: sum.splits)
  from step_wellFormed [OF Cons.prems(1) s1(1)] Cons.IH s1(2) show ?case by blast
qed

lemma reachable_wellFormed: "run (Open # evs) (mount url) = Inr s \<Longrightarrow> wellFormed s"
proof -
  assume "run (Open # evs) (mount url) = Inr s"
  then have r: "run evs (openEditor (mount url)) = Inr s" by simp
  have "wellFormed (openEditor (mount url))"
    by (rule open_wellFormed) (simp add: mount_def)
  from run_wellFormed [OF this r] show ?thesis .
qed

lemma reachable_undo_redo:
  assumes "run (Open # evs) (mount url) = Inr s" and "\<not> isDrawing s"
    and "0 < historyIndex s"
  shows "\<exists>s1 s2. handleUndo s = Inr s1 \<and> handleRedo s1 = Inr s2 \<and>
           history s2 = history s \<and> historyIndex s2 = historyIndex s \<and>
           currentState s2 = currentState s"
proof -
  from reachable_wellFormed [OF assms(1)] assms(2)
  have r: "historyIndex s < int (length (history s))"
    and c: "currentState s = history s ! nat (historyIndex s)"
    by (simp_all add: wellFormed_def)
  from undo_redo [OF assms(3) r] c show ?thesis by auto
qed

end
